theory Spec2Isabelle
  imports Complex_Main "HOL-Library.Word"
begin

section \<open>The capture-output pipeline of \<^verbatim>\<open>src/serve.ts\<close>\<close>

text \<open>
  The embedding follows \<^verbatim>\<open>src/serve.ts\<close>: the helper \<^verbatim>\<open>generateFilename\<close>, the animation
  assembler \<^verbatim>\<open>createAnimatedWebP\<close> and the two request handlers \<^verbatim>\<open>take_screenshot\<close> and
  \<^verbatim>\<open>take_screencast\<close>.

  Conventions.
  \<^item> A JavaScript number is a rational (\<^typ>\<open>rat\<close>). Comparison and \<^verbatim>\<open>Math.min\<close> of finite
    doubles agree with the rationals; the only arithmetic is \<^verbatim>\<open>interval * 1000\<close> and the
    summation of delays, both exact for the intervals the handler chooses. NaN and the
    infinities are outside the model.
  \<^item> A \<^verbatim>\<open>Buffer\<close> is a list of bytes; the SHA-1 digest (compared through its hexadecimal
    rendering) is a 160-bit word. The digest function itself belongs to the runtime and
    is a parameter.
  \<^item> Everything the code asks of its environment (URL parsing, the clock, the capture
    engine, the file system, the encoder process) is a field of the record \<open>sys\<close>.
  \<^item> Every operation the code issues is appended to a trace of \<open>effect\<close>s together with
    its outcome; a raised exception is \<open>Inl\<close> of an \<open>error\<close>.
  \<^item> Strings are byte lists; the two pictographs that open the response texts are their
    UTF-8 encodings.
  \<^item> \<^verbatim>\<open>format\<close> and \<^verbatim>\<open>quality\<close> range over the enumerations of the input schema.
  \<^item> A handler is followed through one request. The capture module that it imports on
    first use is a flag of the environment; the dynamic imports at the head of
    \<^verbatim>\<open>createAnimatedWebP\<close> (built-in modules and the process runner) are taken to succeed.
  Logging is not modelled.
\<close>

subsection \<open>Data\<close>

type_synonym buffer = "8 word list"
type_synonym digest = "160 word"

datatype quality = Low | Medium | High

datatype format = Png | Webp

datatype js_evaluate = JsString string | JsArray "string list"

datatype error =
    ImportFailed
  | InvalidUrl
  | FormatWithoutDirectory
  | CaptureFailed string
  | MkdirFailed string
  | WriteFailed string
  | EncoderFailed
  | ReadFailed string
  | RmFailed string

text \<open>The elements of \<^verbatim>\<open>uniqueFrames\<close> in \<^verbatim>\<open>createAnimatedWebP\<close>.\<close>

record ('b, 'h) unique_frame =
  buf :: 'b
  duration :: rat
  hash :: 'h

text \<open>The option objects handed to the capture engine.\<close>

record screenshot_options =
  so_url :: string
  so_viewport_width :: rat
  so_fullPage :: bool
  so_waitUntil :: string
  so_waitFor :: "rat option"

record screencast_options =
  co_url :: string
  co_duration :: rat
  co_interval :: rat
  co_viewport_width :: rat
  co_viewport_height :: rat
  co_waitUntil :: string
  co_waitFor :: "rat option"
  co_jsEvaluate :: "js_evaluate option"

text \<open>
  What the engine returns: a tiled result (the \<^verbatim>\<open>screenshot\<close> of every tile, \<^verbatim>\<open>fullWidth\<close>,
  \<^verbatim>\<open>fullHeight\<close>, \<^verbatim>\<open>tileSize\<close>) or a regular one (\<^verbatim>\<open>screenshot\<close>, \<^verbatim>\<open>viewport.width\<close>,
  \<^verbatim>\<open>viewport.height\<close>); for a screencast the \<^verbatim>\<open>screenshot\<close> of every frame, \<^verbatim>\<open>duration\<close>
  and \<^verbatim>\<open>interval\<close>.
\<close>

datatype screenshot_result =
    TiledScreenshot "buffer list" rat rat rat
  | RegularScreenshot buffer rat rat

record screencast_result =
  res_frames :: "buffer list"
  res_duration :: rat
  res_interval :: rat

text \<open>The arguments of the two tools (\<^verbatim>\<open>request.params.arguments\<close>); an omitted property is \<open>None\<close>.
  \<^verbatim>\<open>waitForMS\<close> is not in the screencast schema, but a caller may still send it.\<close>

record screenshot_args =
  ss_url :: string
  ss_width :: "rat option"
  ss_fullPage :: "bool option"
  ss_waitUntil :: "string option"
  ss_waitForMS :: "rat option"
  ss_directory :: "string option"

record screencast_args =
  sc_url :: string
  sc_duration :: "rat option"
  sc_width :: "rat option"
  sc_height :: "rat option"
  sc_jsEvaluate :: "js_evaluate option"
  sc_waitUntil :: "string option"
  sc_directory :: "string option"
  sc_format :: "format option"
  sc_quality :: "quality option"
  sc_waitForMS :: "rat option"

datatype content = ImageContent string string | TextContent string

text \<open>The operations issued, each with its outcome where it has one.\<close>

datatype effect =
    ImportModule bool
  | CaptureScreenshot screenshot_options
  | CaptureScreencast screencast_options
  | ExistsSync string bool
  | Mkdir string bool
  | WriteFile string buffer bool
  | Exec string "string list" string bool
  | ReadFile string bool
  | Rm string bool

text \<open>The environment. The capture engine answers with a result or with the message of the
  error it throws. \<open>now_iso s n\<close> is the \<open>n\<close>-th reading of \<^verbatim>\<open>new Date().toISOString()\<close>
  within a request, \<open>rm_ok s n\<close> the outcome of the \<open>n\<close>-th \<^verbatim>\<open>rm\<close> within one assembler call.\<close>

record sys =
  hostname_of :: "string \<Rightarrow> string option"
  now_iso :: "nat \<Rightarrow> string"
  show_num :: "rat \<Rightarrow> string"
  base64 :: "buffer \<Rightarrow> string"
  sha1 :: "buffer \<Rightarrow> digest"
  path_join :: "string list \<Rightarrow> string"
  platform :: string
  module_dir :: string
  os_tmpdir :: string
  random_uuid :: string
  module_loaded :: bool
  import_ok :: bool
  captureScreenshot :: "screenshot_options \<Rightarrow> string + screenshot_result"
  captureScreencast :: "screencast_options \<Rightarrow> string + screencast_result"
  exists_sync :: "string \<Rightarrow> bool"
  mkdir_ok :: "string \<Rightarrow> bool"
  write_ok :: "string \<Rightarrow> bool"
  exec_ok :: "string \<Rightarrow> string list \<Rightarrow> bool"
  read_file :: "string \<Rightarrow> buffer option"
  rm_ok :: "nat \<Rightarrow> bool"

subsection \<open>Sequencing\<close>

type_synonym 'a io = "effect list \<times> (error + 'a)"

definition bind_io :: "'a io \<Rightarrow> ('a \<Rightarrow> 'b io) \<Rightarrow> 'b io" where
  "bind_io m f =
     (case m of
        (tr, Inl e) \<Rightarrow> (tr, Inl e)
      | (tr, Inr x) \<Rightarrow> (case f x of (tr', r) \<Rightarrow> (tr @ tr', r)))"

definition io_capture :: "effect \<Rightarrow> string + 'a \<Rightarrow> 'a io" where
  "io_capture call answer =
     ([call], case answer of Inl message \<Rightarrow> Inl (CaptureFailed message) | Inr result \<Rightarrow> Inr result)"

definition io_mkdir :: "sys \<Rightarrow> string \<Rightarrow> unit io" where
  "io_mkdir s p = ([Mkdir p (mkdir_ok s p)], if mkdir_ok s p then Inr () else Inl (MkdirFailed p))"

definition io_write :: "sys \<Rightarrow> string \<Rightarrow> buffer \<Rightarrow> unit io" where
  "io_write s p b =
     ([WriteFile p b (write_ok s p)], if write_ok s p then Inr () else Inl (WriteFailed p))"

text \<open>\<^verbatim>\<open>Promise.all\<close> over the writes: all of them are issued, and a failure is raised (of
  several, the one of the first file in order).\<close>

definition io_write_all :: "sys \<Rightarrow> (string \<times> buffer) list \<Rightarrow> unit io" where
  "io_write_all s files =
     (map (\<lambda>(p, b). WriteFile p b (write_ok s p)) files,
      case filter (\<lambda>(p, b). \<not> write_ok s p) files of
        [] \<Rightarrow> Inr ()
      | (p, b) # _ \<Rightarrow> Inl (WriteFailed p))"

definition io_exec :: "sys \<Rightarrow> string \<Rightarrow> string list \<Rightarrow> string \<Rightarrow> unit io" where
  "io_exec s bin args cwd =
     ([Exec bin args cwd (exec_ok s bin args)],
      if exec_ok s bin args then Inr () else Inl EncoderFailed)"

definition io_read :: "sys \<Rightarrow> string \<Rightarrow> buffer io" where
  "io_read s p =
     (case read_file s p of
        None \<Rightarrow> ([ReadFile p False], Inl (ReadFailed p))
      | Some b \<Rightarrow> ([ReadFile p True], Inr b))"

definition io_rm :: "sys \<Rightarrow> nat \<Rightarrow> string \<Rightarrow> unit io" where
  "io_rm s n p = ([Rm p (rm_ok s n)], if rm_ok s n then Inr () else Inl (RmFailed p))"

subsection \<open>Strings\<close>

definition nl :: string where
  "nl = [CHR 0x0A]"

definition check_mark :: string where
  "check_mark = [CHR 0xE2, CHR 0x9C, CHR 0x85]"

definition warning_sign :: string where
  "warning_sign = [CHR 0xE2, CHR 0x9A, CHR 0xA0, CHR 0xEF, CHR 0xB8, CHR 0x8F]"

text \<open>Decimal rendering of a non-negative integer (\<^verbatim>\<open>String(n)\<close>, a template hole).\<close>

fun show_nat :: "nat \<Rightarrow> string" where
  "show_nat n =
     (if n < 10 then [''0123456789'' ! n]
      else show_nat (n div 10) @ [''0123456789'' ! (n mod 10)])"

declare show_nat.simps [simp del]

text \<open>\<^verbatim>\<open>Array.prototype.join\<close>.\<close>

fun join_with :: "string \<Rightarrow> string list \<Rightarrow> string" where
  "join_with sep [] = []"
| "join_with sep [x] = x"
| "join_with sep (x # y # ys) = x @ sep @ join_with sep (y # ys)"

text \<open>\<^verbatim>\<open>String.prototype.replace\<close> with a string pattern: the first occurrence only.\<close>

fun replace_first :: "string \<Rightarrow> string \<Rightarrow> string \<Rightarrow> string" where
  "replace_first pat rep [] = (if pat = [] then rep else [])"
| "replace_first pat rep (c # cs) =
     (if take (length pat) (c # cs) = pat then rep @ drop (length pat) (c # cs)
      else c # replace_first pat rep cs)"

definition quality_name :: "quality \<Rightarrow> string" where
  "quality_name q = (case q of Low \<Rightarrow> ''low'' | Medium \<Rightarrow> ''medium'' | High \<Rightarrow> ''high'')"

text \<open>Truthiness of an optional string: \<^verbatim>\<open>undefined\<close> and the empty string are falsy.\<close>

definition truthy_dir :: "string option \<Rightarrow> string option" where
  "truthy_dir d = (case d of None \<Rightarrow> None | Some x \<Rightarrow> if x = [] then None else Some x)"

subsection \<open>\<^verbatim>\<open>generateFilename\<close>\<close>

definition is_alnum :: "char \<Rightarrow> bool" where
  "is_alnum c =
     (let n = (of_char c :: nat)
      in (97 \<le> n \<and> n \<le> 122) \<or> (65 \<le> n \<and> n \<le> 90) \<or> (48 \<le> n \<and> n \<le> 57))"

text \<open>\<^verbatim>\<open>hostname.replace(/[^a-z0-9]/gi, '_')\<close>\<close>

definition sanitize_hostname :: "string \<Rightarrow> string" where
  "sanitize_hostname = map (\<lambda>c. if is_alnum c then c else CHR ''_'')"

text \<open>\<^verbatim>\<open>toISOString().replace(/[:.]/g, '-')\<close>\<close>

definition stamp :: "string \<Rightarrow> string" where
  "stamp = map (\<lambda>c. if c = CHR '':'' \<or> c = CHR ''.'' then CHR ''-'' else c)"

definition generateFilename :: "sys \<Rightarrow> nat \<Rightarrow> string \<Rightarrow> nat option \<Rightarrow> string \<Rightarrow> error + string" where
  "generateFilename s tick url index prefix =
     (case hostname_of s url of
        None \<Rightarrow> Inl InvalidUrl
      | Some urlHostname \<Rightarrow>
          let hostname = sanitize_hostname urlHostname;
              timestamp = stamp (now_iso s tick);
              suffix = (case index of Some i \<Rightarrow> ''_frame'' @ show_nat (i + 1) | None \<Rightarrow> [])
          in Inr (prefix @ ''_'' @ hostname @ ''_'' @ timestamp @ suffix @ ''.png''))"

subsection \<open>\<^verbatim>\<open>createAnimatedWebP\<close>\<close>

text \<open>The body of the loop over \<^verbatim>\<open>frames\<close>: extend the last run or push a new one.\<close>

definition push_frame ::
  "('b \<Rightarrow> 'h) \<Rightarrow> rat \<Rightarrow> ('b, 'h) unique_frame list \<Rightarrow> 'b \<Rightarrow> ('b, 'h) unique_frame list" where
  "push_frame createHash delay uniqueFrames b =
     (let h = createHash b in
      if uniqueFrames \<noteq> [] \<and> h = hash (last uniqueFrames)
      then uniqueFrames[length uniqueFrames - 1 :=
             (last uniqueFrames)\<lparr>duration := duration (last uniqueFrames) + delay\<rparr>]
      else uniqueFrames @ [\<lparr>buf = b, duration = delay, hash = h\<rparr>])"

definition collapse_frames ::
  "('b \<Rightarrow> 'h) \<Rightarrow> rat \<Rightarrow> 'b list \<Rightarrow> ('b, 'h) unique_frame list" where
  "collapse_frames createHash delay frames = foldl (push_frame createHash delay) [] frames"

text \<open>\<^verbatim>\<open>if (endDelay && uniqueFrames.length > 0)\<close>: an omitted end delay and the number 0 are
  both falsy.\<close>

definition apply_end_delay ::
  "rat option \<Rightarrow> ('b, 'h) unique_frame list \<Rightarrow> ('b, 'h) unique_frame list" where
  "apply_end_delay endDelay uniqueFrames =
     (case endDelay of
        None \<Rightarrow> uniqueFrames
      | Some e \<Rightarrow>
          if e \<noteq> 0 \<and> length uniqueFrames > 0
          then uniqueFrames[length uniqueFrames - 1 := (last uniqueFrames)\<lparr>duration := e\<rparr>]
          else uniqueFrames)"

definition quality_value :: "quality \<Rightarrow> nat" where
  "quality_value q = (if q = High then 90 else if q = Medium then 75 else 50)"

definition encoder_args :: "sys \<Rightarrow> quality \<Rightarrow> (buffer, digest) unique_frame list \<Rightarrow> string list" where
  "encoder_args s q uniqueFrames =
     [''-min_size'', ''-mixed'', ''-loop'', ''0'', ''-q'', show_nat (quality_value q), ''-m'', ''6'']
     @ concat (map (\<lambda>(i, frame). [''-d'', show_num s (duration frame), ''f'' @ show_nat i @ ''.png''])
                 (enumerate 0 uniqueFrames))
     @ [''-o'', ''out.webp'']"

definition binary_name :: "sys \<Rightarrow> string" where
  "binary_name s = (if platform s = ''darwin'' then ''img2webp-darwin'' else ''img2webp-linux'')"

definition temp_dir :: "sys \<Rightarrow> string" where
  "temp_dir s = path_join s [os_tmpdir s, ''webp-'' @ random_uuid s]"

fun is_rm :: "effect \<Rightarrow> bool" where
  "is_rm (Rm p ok) = True"
| "is_rm _ = False"

text \<open>The \<^verbatim>\<open>try\<close> block.\<close>

definition assemble :: "sys \<Rightarrow> string \<Rightarrow> string \<Rightarrow> buffer list \<Rightarrow> rat \<Rightarrow> rat option \<Rightarrow> quality \<Rightarrow> buffer io" where
  "assemble s IMG2WEBP tempDir frames delay endDelay q =
     (let uniqueFrames = apply_end_delay endDelay (collapse_frames (sha1 s) delay frames)
      in bind_io (io_write_all s
                   (map (\<lambda>(i, frame). (path_join s [tempDir, ''f'' @ show_nat i @ ''.png''], buf frame))
                      (enumerate 0 uniqueFrames))) (\<lambda>_.
         bind_io (io_exec s IMG2WEBP (encoder_args s q uniqueFrames) tempDir) (\<lambda>_.
         bind_io (io_read s (path_join s [tempDir, ''out.webp''])) (\<lambda>result.
         bind_io (io_rm s 0 tempDir) (\<lambda>_.
         ([], Inr result))))))"

text \<open>The whole function: the temporary directory is made outside the \<^verbatim>\<open>try\<close>; the \<^verbatim>\<open>catch\<close>
  removes it, ignores the outcome of that removal, and throws the error again.\<close>

definition createAnimatedWebP :: "sys \<Rightarrow> buffer list \<Rightarrow> rat \<Rightarrow> rat option \<Rightarrow> quality \<Rightarrow> buffer io" where
  "createAnimatedWebP s frames delay endDelay q =
     (let IMG2WEBP = path_join s [module_dir s, ''bin'', binary_name s];
          tempDir = temp_dir s
      in bind_io (io_mkdir s tempDir) (\<lambda>_.
           case assemble s IMG2WEBP tempDir frames delay endDelay q of
             (tr, Inr result) \<Rightarrow> (tr, Inr result)
           | (tr, Inl e) \<Rightarrow> (tr @ [Rm tempDir (rm_ok s (length (filter is_rm tr)))], Inl e)))"



subsection \<open>Writing captures to a directory\<close>

text \<open>\<^verbatim>\<open>if (!existsSync(dir)) await mkdir(dir, { recursive: true })\<close>\<close>

definition ensure_dir :: "sys \<Rightarrow> string \<Rightarrow> unit io" where
  "ensure_dir s directory =
     bind_io ([ExistsSync directory (exists_sync s directory)], Inr ()) (\<lambda>_.
       if \<not> exists_sync s directory then io_mkdir s directory else ([], Inr ()))"

text \<open>
  The loop \<^verbatim>\<open>for (let i = 0; i < n; i++)\<close> that names, writes and records one buffer per
  round. The source has it three times, for the tiles of a screenshot (default prefix
  \<^verbatim>\<open>screenshot\<close>), for the frames of a \<^verbatim>\<open>png\<close> screencast and for the frames of the
  fallback (both with prefix \<^verbatim>\<open>frame\<close>); the three texts differ in the prefix only.
  Round \<open>i\<close> makes the \<open>i\<close>-th clock reading of the request.
\<close>

fun save_buffers :: "sys \<Rightarrow> string \<Rightarrow> string \<Rightarrow> string \<Rightarrow> nat \<Rightarrow> buffer list \<Rightarrow> string list io" where
  "save_buffers s directory url prefix i [] = ([], Inr [])"
| "save_buffers s directory url prefix i (b # bs) =
     (case generateFilename s i url (Some i) prefix of
        Inl e \<Rightarrow> ([], Inl e)
      | Inr filename \<Rightarrow>
          let filepath = path_join s [directory, filename]
          in bind_io (io_write s filepath b) (\<lambda>_.
             bind_io (save_buffers s directory url prefix (Suc i) bs) (\<lambda>paths.
             ([], Inr (filepath # paths)))))"

text \<open>The single file of a regular screenshot.\<close>

definition save_single :: "sys \<Rightarrow> string \<Rightarrow> string \<Rightarrow> buffer \<Rightarrow> string io" where
  "save_single s directory url screenshot =
     (case generateFilename s 0 url None ''screenshot'' of
        Inl e \<Rightarrow> ([], Inl e)
      | Inr filename \<Rightarrow>
          let filepath = path_join s [directory, filename]
          in bind_io (io_write s filepath screenshot) (\<lambda>_. ([], Inr filepath)))"

text \<open>The animated asset: \<^verbatim>\<open>generateFilename(url, undefined, 'screencast').replace('.png', '.webp')\<close>.\<close>

definition save_webp :: "sys \<Rightarrow> string \<Rightarrow> string \<Rightarrow> buffer \<Rightarrow> string io" where
  "save_webp s directory url webpBuffer =
     (case generateFilename s 0 url None ''screencast'' of
        Inl e \<Rightarrow> ([], Inl e)
      | Inr name \<Rightarrow>
          let filename = replace_first ''.png'' ''.webp'' name;
              filepath = path_join s [directory, filename]
          in bind_io (io_write s filepath webpBuffer) (\<lambda>_. ([], Inr filepath)))"

subsection \<open>The handler of \<^verbatim>\<open>take_screenshot\<close>\<close>

text \<open>The lazy \<^verbatim>\<open>import\<close> of the capture module at the head of each handler.\<close>

definition with_module :: "sys \<Rightarrow> 'a io \<Rightarrow> 'a io" where
  "with_module s body =
     (if module_loaded s then body
      else if import_ok s then bind_io ([ImportModule True], Inr ()) (\<lambda>_. body)
      else ([ImportModule False], Inl ImportFailed))"

definition screenshot_options_of :: "screenshot_args \<Rightarrow> screenshot_options" where
  "screenshot_options_of args =
     \<lparr>so_url = ss_url args,
      so_viewport_width = min (case ss_width args of None \<Rightarrow> 1072 | Some w \<Rightarrow> w) 1072,
      so_fullPage = (case ss_fullPage args of None \<Rightarrow> True | Some b \<Rightarrow> b),
      so_waitUntil = (case ss_waitUntil args of None \<Rightarrow> ''domcontentloaded'' | Some w \<Rightarrow> w),
      so_waitFor = ss_waitForMS args\<rparr>"

definition save_screenshot :: "sys \<Rightarrow> screenshot_args \<Rightarrow> screenshot_result \<Rightarrow> content list io" where
  "save_screenshot s args result =
     (case truthy_dir (ss_directory args) of
        Some directory \<Rightarrow>
          bind_io (ensure_dir s directory) (\<lambda>_.
            case result of
              TiledScreenshot tiles fullWidth fullHeight tileSize \<Rightarrow>
                bind_io (save_buffers s directory (ss_url args) ''screenshot'' 0 tiles) (\<lambda>savedPaths.
                  ([], Inr [TextContent
                     (check_mark @ '' Saved '' @ show_nat (length tiles) @ '' screenshot tiles to:'' @ nl
                      @ join_with nl savedPaths @ nl @ nl
                      @ ''Page size: '' @ show_num s fullWidth @ ''x'' @ show_num s fullHeight
                      @ '' pixels'' @ nl
                      @ ''Tile size: '' @ show_num s tileSize @ ''x'' @ show_num s tileSize
                      @ '' pixels'')]))
            | RegularScreenshot screenshot width height \<Rightarrow>
                bind_io (save_single s directory (ss_url args) screenshot) (\<lambda>filepath.
                  ([], Inr [TextContent
                     (check_mark @ '' Screenshot saved to: '' @ filepath @ nl @ nl
                      @ ''Dimensions: '' @ show_num s width @ ''x'' @ show_num s height
                      @ '' pixels'')])))
      | None \<Rightarrow>
          (case result of
             TiledScreenshot tiles fullWidth fullHeight tileSize \<Rightarrow>
               ([], Inr (map (\<lambda>tile. ImageContent (base64 s tile) ''image/png'') tiles
                  @ [TextContent
                      (check_mark @ '' Captured '' @ show_nat (length tiles) @ '' tiles (''
                       @ show_num s tileSize @ ''x'' @ show_num s tileSize
                       @ '' each) from page measuring '' @ show_num s fullWidth @ ''x''
                       @ show_num s fullHeight @ '' pixels'')]))
           | RegularScreenshot screenshot width height \<Rightarrow>
               ([], Inr [ImageContent (base64 s screenshot) ''image/png'',
                  TextContent
                    (check_mark @ '' Screenshot captured: '' @ show_num s width @ ''x''
                     @ show_num s height @ '' pixels'')])))"

definition take_screenshot :: "sys \<Rightarrow> screenshot_args \<Rightarrow> content list io" where
  "take_screenshot s args =
     with_module s
       (let opts = screenshot_options_of args
        in bind_io (io_capture (CaptureScreenshot opts) (captureScreenshot s opts)) (\<lambda>result.
             save_screenshot s args result))"

subsection \<open>The handler of \<^verbatim>\<open>take_screencast\<close>\<close>

text \<open>The interval, as the handler chooses it (\<^verbatim>\<open>if (args.directory && format === 'webp')\<close>).\<close>

definition screencast_interval :: "string option \<Rightarrow> format \<Rightarrow> rat \<Rightarrow> rat" where
  "screencast_interval directory format seconds =
     (if truthy_dir directory \<noteq> None \<and> format = Webp
      then (if seconds \<le> 5 then 0.1 else if seconds \<le> 10 then 0.2 else 0.5)
      else 2)"


definition sc_format_of :: "screencast_args \<Rightarrow> format" where
  "sc_format_of args = (case sc_format args of None \<Rightarrow> Webp | Some f \<Rightarrow> f)"

definition sc_quality_of :: "screencast_args \<Rightarrow> quality" where
  "sc_quality_of args = (case sc_quality args of None \<Rightarrow> Medium | Some q \<Rightarrow> q)"

definition sc_duration_of :: "screencast_args \<Rightarrow> rat" where
  "sc_duration_of args = (case sc_duration args of None \<Rightarrow> 10 | Some d \<Rightarrow> d)"

definition sc_interval_of :: "screencast_args \<Rightarrow> rat" where
  "sc_interval_of args = screencast_interval (sc_directory args) (sc_format_of args) (sc_duration_of args)"

definition screencast_options_of :: "screencast_args \<Rightarrow> screencast_options" where
  "screencast_options_of args =
     \<lparr>co_url = sc_url args,
      co_duration = sc_duration_of args,
      co_interval = sc_interval_of args,
      co_viewport_width = min (case sc_width args of None \<Rightarrow> 1072 | Some w \<Rightarrow> w) 1072,
      co_viewport_height = min (case sc_height args of None \<Rightarrow> 1072 | Some h \<Rightarrow> h) 1072,
      co_waitUntil = (case sc_waitUntil args of None \<Rightarrow> ''domcontentloaded'' | Some w \<Rightarrow> w),
      co_waitFor = None,
      co_jsEvaluate = sc_jsEvaluate args\<rparr>"

text \<open>Everything after the capture: \<^verbatim>\<open>if (args.directory) { ... } else { ... }\<close>.\<close>

definition save_screencast :: "sys \<Rightarrow> screencast_args \<Rightarrow> screencast_result \<Rightarrow> content list io" where
  "save_screencast s args result =
     (let format = sc_format_of args;
          quality = sc_quality_of args;
          interval = sc_interval_of args
      in case truthy_dir (sc_directory args) of
        Some directory \<Rightarrow>
          bind_io (ensure_dir s directory) (\<lambda>_.
            let frames = res_frames result
            in if format = Png
               then bind_io (save_buffers s directory (sc_url args) ''frame'' 0 frames) (\<lambda>framePaths.
                      ([], Inr [TextContent
                         (check_mark @ '' Screencast saved as PNG frames:'' @ nl
                          @ join_with nl framePaths @ nl @ nl
                          @ ''Duration: '' @ show_num s (res_duration result) @ ''s'' @ nl
                          @ ''Frames: '' @ show_nat (length frames) @ nl
                          @ ''Interval: '' @ show_num s interval @ ''s'')]))
               else (case createAnimatedWebP s frames (interval * 1000) (Some 4000) quality of
                       (tr, Inr webpBuffer) \<Rightarrow>
                         bind_io (tr, Inr ()) (\<lambda>_.
                         bind_io (save_webp s directory (sc_url args) webpBuffer) (\<lambda>filepath.
                           ([], Inr [TextContent
                              (check_mark @ '' Screencast saved as animated WebP: '' @ filepath
                               @ nl @ nl
                               @ ''Duration: '' @ show_num s (res_duration result) @ ''s'' @ nl
                               @ ''Frames: '' @ show_nat (length frames) @ nl
                               @ ''Capture Interval: '' @ show_num s (interval * 1000)
                               @ ''ms (4s pause at end)'' @ nl
                               @ ''Quality: '' @ quality_name quality @ nl
                               @ ''Method: img2webp (optimized with frame deduplication)'')])))
                     | (tr, Inl _) \<Rightarrow>
                         bind_io (tr, Inr ()) (\<lambda>_.
                         bind_io (save_buffers s directory (sc_url args) ''frame'' 0 frames) (\<lambda>framePaths.
                           ([], Inr [TextContent
                              (warning_sign @ ''  WebP creation failed, saved as PNG frames:'' @ nl
                               @ join_with nl framePaths @ nl @ nl
                               @ ''Duration: '' @ show_num s (res_duration result) @ ''s'' @ nl
                               @ ''Frames: '' @ show_nat (length frames) @ nl
                               @ ''Interval: '' @ show_num s interval @ ''s'')])))))
      | None \<Rightarrow>
          ([], Inr (map (\<lambda>frame. ImageContent (base64 s frame) ''image/png'') (res_frames result)
             @ [TextContent
                 (check_mark @ '' Captured '' @ show_nat (length (res_frames result))
                  @ '' frames over '' @ show_num s (res_duration result) @ '' seconds (''
                  @ show_num s (res_interval result) @ ''s interval)'')])))"

text \<open>The handler: \<^verbatim>\<open>if (args.format && !args.directory) throw\<close>, then the capture, then the
  output.\<close>

definition take_screencast :: "sys \<Rightarrow> screencast_args \<Rightarrow> content list io" where
  "take_screencast s args =
     with_module s
       (if sc_format args \<noteq> None \<and> truthy_dir (sc_directory args) = None
        then ([], Inl FormatWithoutDirectory)
        else let opts = screencast_options_of args
             in bind_io (io_capture (CaptureScreencast opts) (captureScreencast s opts)) (\<lambda>result.
                  save_screencast s args result))"

text \<open>Reading a trace: the capture calls, and the contents successfully written.\<close>

fun is_capture :: "effect \<Rightarrow> bool" where
  "is_capture (CaptureScreenshot opts) = True"
| "is_capture (CaptureScreencast opts) = True"
| "is_capture _ = False"

fun written :: "effect list \<Rightarrow> (string \<times> buffer) list" where
  "written [] = []"
| "written (WriteFile p b ok # tr) = (if ok then (p, b) # written tr else written tr)"
| "written (_ # tr) = written tr"

subsection \<open>Runs, in the words of the specification\<close>

text \<open>
  A run is a maximal sequence of consecutive frames of one content hash (glossary, and
  the invariant of \<^verbatim>\<open>UniqueFrameRun\<close> in section 3). \<open>frame_runs\<close> cuts a frame sequence
  into its runs from the front; \<open>run_of_group\<close> is the record that the invariant asks
  for: the first buffer, its hash, and the base delay times the number of frames.
\<close>

fun frame_runs :: "('b \<Rightarrow> 'h) \<Rightarrow> 'b list \<Rightarrow> 'b list list" where
  "frame_runs h [] = []"
| "frame_runs h (x # xs) =
     (case frame_runs h xs of
        [] \<Rightarrow> [[x]]
      | g # gs \<Rightarrow> if h x = h (hd g) then (x # g) # gs else [x] # g # gs)"

definition run_of_group :: "('b \<Rightarrow> 'h) \<Rightarrow> rat \<Rightarrow> 'b list \<Rightarrow> ('b, 'h) unique_frame" where
  "run_of_group h delay g = \<lparr>buf = hd g, duration = delay * of_nat (length g), hash = h (hd g)\<rparr>"

text \<open>
  The file name pattern of section 4.3,
  \<^verbatim>\<open><prefix>_<sanitizedHostname>_<captureISOTimestamp>[_frame<N>]\<close> followed by the
  extension.
\<close>

definition named :: "string \<Rightarrow> string \<Rightarrow> string \<Rightarrow> nat option \<Rightarrow> string \<Rightarrow> string" where
  "named prefix sanitizedHostname captureISOTimestamp frame extension =
     prefix @ ''_'' @ sanitizedHostname @ ''_'' @ captureISOTimestamp
     @ (case frame of None \<Rightarrow> [] | Some N \<Rightarrow> ''_frame'' @ show_nat N) @ extension"

subsection \<open>A concrete environment\<close>

text \<open>An environment in which every operation succeeds, used to run the model on
  concrete requests. Its digest is the length of the buffer, its number rendering covers
  the values that occur.\<close>

definition demo_sys :: sys where
  "demo_sys =
     \<lparr>hostname_of = (\<lambda>u. if u = ''https://example.com/'' then Some ''example.com'' else None),
      now_iso = (\<lambda>n. ''2026-11-03T09:20:00.00'' @ show_nat n @ ''Z''),
      show_num = (\<lambda>r. if r = 0.1 then ''0.1'' else if r = 0.2 then ''0.2''
                       else if r = 0.5 then ''0.5'' else show_nat (nat \<lfloor>r\<rfloor>)),
      base64 = (\<lambda>b. map (\<lambda>w. char_of (unat w)) b),
      sha1 = (\<lambda>b. of_nat (length b)),
      path_join = join_with ''/'',
      platform = ''linux'',
      module_dir = ''/app/dist'',
      os_tmpdir = ''/tmp'',
      random_uuid = ''0000'',
      module_loaded = True,
      import_ok = True,
      captureScreenshot = (\<lambda>opts. Inr (RegularScreenshot [1, 2, 3] (so_viewport_width opts) 1072)),
      captureScreencast = (\<lambda>opts. Inr \<lparr>res_frames = [[1], [1], [2, 2]],
                                        res_duration = co_duration opts,
                                        res_interval = co_interval opts\<rparr>),
      exists_sync = (\<lambda>p. True),
      mkdir_ok = (\<lambda>p. True),
      write_ok = (\<lambda>p. True),
      exec_ok = (\<lambda>bin args. True),
      read_file = (\<lambda>p. Some [7, 7]),
      rm_ok = (\<lambda>n. True)\<rparr>"

definition demo_screenshot_args :: screenshot_args where
  "demo_screenshot_args =
     \<lparr>ss_url = ''https://example.com/'', ss_width = None, ss_fullPage = None,
      ss_waitUntil = None, ss_waitForMS = None, ss_directory = None\<rparr>"

definition demo_screencast_args :: screencast_args where
  "demo_screencast_args =
     \<lparr>sc_url = ''https://example.com/'', sc_duration = None, sc_width = None, sc_height = None,
      sc_jsEvaluate = None, sc_waitUntil = None, sc_directory = None, sc_format = None,
      sc_quality = None, sc_waitForMS = None\<rparr>"

section \<open>Properties\<close>

subsection \<open>The deduplication pass computes the runs\<close>

lemma update_last: "xs \<noteq> [] \<Longrightarrow> xs[length xs - Suc 0 := y] = butlast xs @ [y]"
  by (induction xs rule: rev_induct) (auto simp: list_update_append)

lemma frame_runs_Nil_iff: "frame_runs h xs = [] \<longleftrightarrow> xs = []"
  by (cases xs) (auto split: list.splits)

lemma frame_runs_nonempty: "g \<in> set (frame_runs h xs) \<Longrightarrow> g \<noteq> []"
  by (induction xs arbitrary: g) (auto split: list.splits if_splits)

lemma concat_frame_runs: "concat (frame_runs h xs) = xs"
  by (induction xs) (auto split: list.splits)

lemma frame_runs_same_hash: "g \<in> set (frame_runs h xs) \<Longrightarrow> y \<in> set g \<Longrightarrow> h y = h (hd g)"
  by (induction xs arbitrary: g y) (auto split: list.splits if_splits)

lemma frame_runs_snoc:
  "frame_runs h (xs @ [x]) =
     (if xs \<noteq> [] \<and> h x = h (last xs)
      then butlast (frame_runs h xs) @ [last (frame_runs h xs) @ [x]]
      else frame_runs h xs @ [[x]])"
proof (induction xs)
  case Nil
  then show ?case by simp
next
  case (Cons a xs)
  show ?case
  proof (cases "xs = []")
    case True
    then show ?thesis by simp
  next
    case ne: False
    then obtain g gs where g: "frame_runs h xs = g # gs"
      by (cases "frame_runs h xs") (auto simp: frame_runs_Nil_iff)
    have gne: "g \<noteq> []" using frame_runs_nonempty[of g h xs] g by simp
    show ?thesis
    proof (cases "gs = []")
      case True
      with Cons.IH ne g gne show ?thesis by auto
    next
      case False
      with Cons.IH ne g gne show ?thesis by (auto simp: butlast_append)
    qed
  qed
qed

lemma last_frame_runs:
  assumes ne: "xs \<noteq> []"
  shows "h (hd (last (frame_runs h xs))) = h (last xs)"
proof -
  from ne have rne: "frame_runs h xs \<noteq> []" by (simp add: frame_runs_Nil_iff)
  then have mem: "last (frame_runs h xs) \<in> set (frame_runs h xs)" by simp
  have gne: "last (frame_runs h xs) \<noteq> []" using frame_runs_nonempty[OF mem] .
  have "concat (frame_runs h xs) = concat (butlast (frame_runs h xs)) @ last (frame_runs h xs)"
    using rne by (metis append_butlast_last_id concat.simps concat_append append_Nil2)
  then have "xs = concat (butlast (frame_runs h xs)) @ last (frame_runs h xs)"
    by (simp add: concat_frame_runs)
  then have "last xs = last (last (frame_runs h xs))"
    using gne by (metis last_appendR)
  then have "last xs \<in> set (last (frame_runs h xs))" using gne by simp
  from frame_runs_same_hash[OF mem this] show ?thesis by simp
qed

lemma collapse_frames_snoc:
  "collapse_frames h delay (xs @ [x]) = push_frame h delay (collapse_frames h delay xs) x"
  by (simp add: collapse_frames_def)

lemma collapse_frames_runs:
  "collapse_frames h delay frames = map (run_of_group h delay) (frame_runs h frames)"
proof (induction frames rule: rev_induct)
  case Nil
  then show ?case by (simp add: collapse_frames_def)
next
  case (snoc x xs)
  show ?case
  proof (cases "xs = []")
    case True
    then show ?thesis by (simp add: collapse_frames_def push_frame_def run_of_group_def)
  next
    case False
    then have rne: "frame_runs h xs \<noteq> []" by (simp add: frame_runs_Nil_iff)
    have lh: "hash (last (collapse_frames h delay xs)) = h (last xs)"
      using rne last_frame_runs[OF False, of h] by (simp add: snoc.IH last_map run_of_group_def)
    have gne: "last (frame_runs h xs) \<noteq> []"
      using rne frame_runs_nonempty[of "last (frame_runs h xs)" h xs] by simp
    have cne: "collapse_frames h delay xs \<noteq> []" using rne by (simp add: snoc.IH)
    show ?thesis
      using rne False lh gne cne
      by (simp add: collapse_frames_snoc push_frame_def Let_def update_last frame_runs_snoc)
         (simp add: snoc.IH map_butlast last_map run_of_group_def[abs_def] algebra_simps)
  qed
qed

lemma hashes_frame_runs: "map (\<lambda>g. h (hd g)) (frame_runs h xs) = remdups_adj (map h xs)"
proof (induction xs)
  case Nil
  then show ?case by simp
next
  case (Cons a xs)
  show ?case
  proof (cases xs)
    case Nil
    then show ?thesis by simp
  next
    case (Cons b ys)
    then have ne: "xs \<noteq> []" by simp
    then obtain g gs where g: "frame_runs h xs = g # gs"
      by (cases "frame_runs h xs") (simp_all add: frame_runs_Nil_iff)
    have "hd (hd (frame_runs h xs)) = b" using Cons by (auto split: list.splits)
    with g have hg: "hd g = b" by simp
    have "remdups_adj (map h xs) = h b # tl (remdups_adj (map h xs))"
      using Cons by (cases ys) auto
    with Cons.IH g hg show ?thesis
      by (auto simp: Cons)
  qed
qed

lemma hashes_collapse_frames:
  "map hash (collapse_frames h delay frames) = remdups_adj (map h frames)"
  by (simp add: collapse_frames_runs run_of_group_def[abs_def] comp_def hashes_frame_runs)

lemma length_collapse_frames:
  "length (collapse_frames h delay frames) = length (remdups_adj (map h frames))"
  using hashes_collapse_frames[of h delay frames] by (metis length_map)

text \<open>
  Claim C1, as the code has it. The pass never yields more runs than frames; it yields as
  many runs as frames exactly when no two consecutive frames have the same content hash;
  the hashes of adjacent runs differ. Frames are compared by digest, so byte-identical
  neighbours always collapse (as many runs as frames implies that no two consecutive
  frames are byte-identical), and the converse holds when the digest separates the
  frames of the input.
\<close>

theorem collapse_frames_count:
  "length (collapse_frames h delay frames) \<le> length frames
   \<and> (length (collapse_frames h delay frames) = length frames \<longleftrightarrow> distinct_adj (map h frames))
   \<and> distinct_adj (map hash (collapse_frames h delay frames))
   \<and> (length (collapse_frames h delay frames) = length frames \<longrightarrow> distinct_adj frames)
   \<and> (inj_on h (set frames) \<longrightarrow>
        (length (collapse_frames h delay frames) = length frames \<longleftrightarrow> distinct_adj frames))"
proof -
  have le: "length (collapse_frames h delay frames) \<le> length frames"
    using remdups_adj_length[of "map h frames"] by (simp add: length_collapse_frames)
  have eq: "length (collapse_frames h delay frames) = length frames \<longleftrightarrow> distinct_adj (map h frames)"
    using distinct_adj_conv_length_remdups_adj[of "map h frames"]
    by (simp add: length_collapse_frames)
  have adj: "distinct_adj (map hash (collapse_frames h delay frames))"
    by (simp add: hashes_collapse_frames)
  have byte: "length (collapse_frames h delay frames) = length frames \<longrightarrow> distinct_adj frames"
    using eq distinct_adj_mapD by blast
  have inj: "inj_on h (set frames) \<longrightarrow>
        (length (collapse_frames h delay frames) = length frames \<longleftrightarrow> distinct_adj frames)"
    using eq distinct_adj_map_iff by blast
  from le eq adj byte inj show ?thesis by blast
qed

text \<open>The theorem at two frames of different length, under the digest that takes the
  length.\<close>

theorem collapse_frames_count_witness:
  "inj_on (\<lambda>b::buffer. of_nat (length b) :: digest) (set [[1], [1, 2]])
   \<and> length (collapse_frames (\<lambda>b::buffer. of_nat (length b) :: digest) 100 [[1], [1, 2]]) = 2
   \<and> distinct_adj [[1], [1, 2 :: 8 word]]"
  using collapse_frames_count [of "\<lambda>b::buffer. of_nat (length b) :: digest" 100 "[[1], [1, 2]]"]
  by (simp add: collapse_frames_def push_frame_def)

text \<open>
  Claim C1 as stated compares bytes. A digest has 160 bits and buffers are unboundedly
  many, so whatever function computes the digest, two different buffers share one; as
  neighbours they collapse into one run although they are not byte-identical.
\<close>

theorem collapse_frames_bytes_counterexample:
  "\<not> (\<exists>sha :: buffer \<Rightarrow> digest. \<forall>frames.
        (length (collapse_frames sha 100 frames) = length frames) = distinct_adj frames)"
proof
  assume "\<exists>sha :: buffer \<Rightarrow> digest. \<forall>frames.
        (length (collapse_frames sha 100 frames) = length frames) = distinct_adj frames"
  then obtain sha :: "buffer \<Rightarrow> digest" where
    claim: "\<And>frames. (length (collapse_frames sha 100 frames) = length frames) = distinct_adj frames"
    by blast
  have "\<not> inj sha"
  proof
    assume "inj sha"
    then have "finite (UNIV :: buffer set)"
      using finite_imageD[of sha UNIV] finite_subset[OF subset_UNIV, of "sha ` UNIV"] by simp
    then show False using infinite_UNIV_listI by blast
  qed
  then obtain x y where xy: "x \<noteq> y" "sha x = sha y" by (auto simp: inj_on_def)
  have "length (collapse_frames sha 100 [x, y]) = 1"
    using xy by (simp add: collapse_frames_def push_frame_def)
  moreover have "distinct_adj [x, y]" using xy by simp
  ultimately show False using claim[of "[x, y]"] by simp
qed

lemma apply_end_delay_Some:
  "e \<noteq> 0 \<Longrightarrow> xs \<noteq> [] \<Longrightarrow>
     apply_end_delay (Some e) xs = butlast xs @ [(last xs)\<lparr>duration := e\<rparr>]"
  by (simp add: apply_end_delay_def update_last)

lemma end_delay_runs:
  assumes "frames \<noteq> []" and "e \<noteq> 0"
  shows "concat (frame_runs h frames) = frames
     \<and> length (apply_end_delay (Some e) (collapse_frames h delay frames)) = length (frame_runs h frames)
     \<and> duration (last (apply_end_delay (Some e) (collapse_frames h delay frames))) = e
     \<and> butlast (apply_end_delay (Some e) (collapse_frames h delay frames))
         = map (run_of_group h delay) (butlast (frame_runs h frames))
     \<and> map duration (butlast (apply_end_delay (Some e) (collapse_frames h delay frames)))
         = map (\<lambda>g. delay * of_nat (length g)) (butlast (frame_runs h frames))"
proof -
  let ?c = "collapse_frames h delay frames"
  from assms(1) have ne: "?c \<noteq> []"
    by (simp add: collapse_frames_runs frame_runs_Nil_iff)
  have eq: "apply_end_delay (Some e) ?c = butlast ?c @ [(last ?c)\<lparr>duration := e\<rparr>]"
    using apply_end_delay_Some[OF assms(2) ne] .
  have len: "length (apply_end_delay (Some e) ?c) = length (frame_runs h frames)"
    using ne by (simp add: eq) (simp add: collapse_frames_runs)
  have bl: "butlast (apply_end_delay (Some e) ?c) = map (run_of_group h delay) (butlast (frame_runs h frames))"
    by (simp add: eq) (simp add: collapse_frames_runs map_butlast)
  have durs: "map duration (butlast (apply_end_delay (Some e) ?c))
         = map (\<lambda>g. delay * of_nat (length g)) (butlast (frame_runs h frames))"
    by (simp add: bl run_of_group_def[abs_def] comp_def)
  show ?thesis
    using len bl durs by (simp add: concat_frame_runs) (simp add: eq)
qed

subsection \<open>Which capture calls a handler makes\<close>

lemma fst_bind_io:
  "fst (bind_io m f) = (case snd m of Inl e \<Rightarrow> fst m | Inr x \<Rightarrow> fst m @ fst (f x))"
  by (cases m) (auto simp: bind_io_def split: sum.splits prod.splits)

lemma snd_bind_io:
  "snd (bind_io m f) = (case snd m of Inl e \<Rightarrow> Inl e | Inr x \<Rightarrow> snd (f x))"
  by (cases m) (auto simp: bind_io_def split: sum.splits prod.splits)

lemma quiet_bind_io:
  assumes "filter is_capture (fst m) = []" and "\<And>x. filter is_capture (fst (f x)) = []"
  shows "filter is_capture (fst (bind_io m f)) = []"
  using assms by (simp add: fst_bind_io split: sum.splits)

lemma quiet_save_buffers:
  "filter is_capture (fst (save_buffers s directory url prefix i bs)) = []"
proof (induction bs arbitrary: i)
  case Nil
  then show ?case by simp
next
  case (Cons b bs)
  show ?case
    by (auto simp: Let_def io_write_def Cons.IH split: sum.splits intro!: quiet_bind_io)
qed

lemma quiet_save_single:
  "filter is_capture (fst (save_single s directory url b)) = []"
  by (auto simp: save_single_def Let_def io_write_def split: sum.splits intro!: quiet_bind_io)

lemma quiet_save_webp:
  "filter is_capture (fst (save_webp s directory url b)) = []"
  by (auto simp: save_webp_def Let_def io_write_def split: sum.splits intro!: quiet_bind_io)

lemma quiet_ensure_dir:
  "filter is_capture (fst (ensure_dir s directory)) = []"
  by (auto simp: ensure_dir_def io_mkdir_def intro!: quiet_bind_io)

lemma quiet_io_write_all:
  "filter is_capture (fst (io_write_all s files)) = []"
  by (induction files) (auto simp: io_write_all_def)

lemma quiet_assemble:
  "filter is_capture (fst (assemble s bin tmp frames delay endDelay q)) = []"
  unfolding assemble_def Let_def
  by (intro quiet_bind_io quiet_io_write_all)
     (auto simp: io_exec_def io_read_def io_rm_def split: option.splits)

lemma quiet_createAnimatedWebP:
  "filter is_capture (fst (createAnimatedWebP s frames delay endDelay q)) = []"
  unfolding createAnimatedWebP_def Let_def
  apply (rule quiet_bind_io)
   apply (simp add: io_mkdir_def)
  using quiet_assemble[of s _ _ frames delay endDelay q]
  apply (auto split: prod.splits sum.splits)
  apply (metis fst_conv)+
  done

lemma quiet_save_screenshot:
  "filter is_capture (fst (save_screenshot s args result)) = []"
  unfolding save_screenshot_def
  by (auto split: option.splits screenshot_result.splits
        intro!: quiet_bind_io quiet_ensure_dir quiet_save_buffers quiet_save_single)

lemma quiet_save_screencast:
  "filter is_capture (fst (save_screencast s args result)) = []"
proof -
  have q: "filter is_capture tr = []"
    if "createAnimatedWebP s frames delay endDelay q = (tr, r)" for frames delay endDelay q tr r
    using quiet_createAnimatedWebP[of s frames delay endDelay q] that by simp
  show ?thesis
    unfolding save_screencast_def Let_def
    by (auto split: option.splits prod.splits sum.splits 
        intro!: quiet_bind_io quiet_ensure_dir quiet_save_buffers quiet_save_webp dest: q)
qed

lemma captures_take_screenshot:
  "filter is_capture (fst (take_screenshot s args)) =
     (if module_loaded s \<or> import_ok s then [CaptureScreenshot (screenshot_options_of args)] else [])"
  by (simp add: take_screenshot_def with_module_def Let_def fst_bind_io io_capture_def
        quiet_save_screenshot split: sum.splits)

lemma captures_take_screencast:
  "filter is_capture (fst (take_screencast s args)) =
     (if (module_loaded s \<or> import_ok s)
         \<and> (sc_format args = None \<or> truthy_dir (sc_directory args) \<noteq> None)
      then [CaptureScreencast (screencast_options_of args)] else [])"
  by (simp add: take_screencast_def with_module_def Let_def fst_bind_io io_capture_def
        quiet_save_screencast split: sum.splits)

subsection \<open>The sampling interval\<close>



subsection \<open>The format needs a directory\<close>

lemma generateFilename_error:
  "generateFilename s tick url index prefix = Inl e \<Longrightarrow> e = InvalidUrl"
  by (auto simp: generateFilename_def Let_def split: option.splits)

lemma valid_save_buffers:
  "snd (save_buffers s directory url prefix i bs) \<noteq> Inl FormatWithoutDirectory"
proof (induction bs arbitrary: i)
  case Nil
  then show ?case by simp
next
  case (Cons b bs)
  show ?case
    using Cons.IH[of "Suc i"]
    by (auto simp: Let_def io_write_def snd_bind_io
          split: sum.splits dest: generateFilename_error)
qed

lemma valid_save_webp:
  "snd (save_webp s directory url b) \<noteq> Inl FormatWithoutDirectory"
  by (auto simp: save_webp_def Let_def io_write_def snd_bind_io
        split: sum.splits dest: generateFilename_error)

lemma valid_ensure_dir:
  "snd (ensure_dir s directory) \<noteq> Inl FormatWithoutDirectory"
  by (auto simp: ensure_dir_def io_mkdir_def snd_bind_io)

lemma valid_save_screencast:
  "snd (save_screencast s args result) \<noteq> Inl FormatWithoutDirectory"
  using valid_ensure_dir[of s] valid_save_buffers[of s] valid_save_webp[of s]
  unfolding save_screencast_def Let_def
  by (auto simp: snd_bind_io split: option.splits prod.splits sum.splits)

text \<open>
  Claim C5, as the code has it. The handler raises its format error exactly when the
  capture module is available, a \<^verbatim>\<open>format\<close> is supplied (\<^verbatim>\<open>png\<close> or \<^verbatim>\<open>webp\<close> alike) and
  \<^verbatim>\<open>directory\<close> is missing or empty; it then makes no capture call. A request that omits
  \<^verbatim>\<open>format\<close>, so that the default \<^verbatim>\<open>webp\<close> applies, never meets this error.
\<close>

theorem format_requires_directory:
  "(snd (take_screencast s args) = Inl FormatWithoutDirectory)
     = ((module_loaded s \<or> import_ok s)
        \<and> sc_format args \<noteq> None \<and> truthy_dir (sc_directory args) = None)
   \<and> (sc_format args \<noteq> None \<and> truthy_dir (sc_directory args) = None
        \<longrightarrow> filter is_capture (fst (take_screencast s args)) = [])
   \<and> (sc_format args = None \<longrightarrow> snd (take_screencast s args) \<noteq> Inl FormatWithoutDirectory)"
proof -
  have err: "(snd (take_screencast s args) = Inl FormatWithoutDirectory)
     = ((module_loaded s \<or> import_ok s)
        \<and> sc_format args \<noteq> None \<and> truthy_dir (sc_directory args) = None)"
    using valid_save_screencast[of s args]
    by (auto simp: take_screencast_def with_module_def Let_def snd_bind_io io_capture_def
          split: sum.splits)
  have quiet: "sc_format args \<noteq> None \<and> truthy_dir (sc_directory args) = None
        \<longrightarrow> filter is_capture (fst (take_screencast s args)) = []"
    by (simp add: captures_take_screencast)
  from err quiet show ?thesis by blast
qed

text \<open>A \<^verbatim>\<open>png\<close> request without a directory is refused before any capture; the request
  without \<^verbatim>\<open>format\<close> and without a directory is served.\<close>

theorem format_requires_directory_witness:
  "take_screencast demo_sys (demo_screencast_args\<lparr>sc_format := Some Png\<rparr>)
     = ([], Inl FormatWithoutDirectory)
   \<and> snd (take_screencast demo_sys demo_screencast_args) \<noteq> Inl FormatWithoutDirectory"
  using format_requires_directory [of demo_sys "demo_screencast_args\<lparr>sc_format := Some Png\<rparr>"]
    format_requires_directory [of demo_sys demo_screencast_args]
  by (simp add: demo_sys_def demo_screencast_args_def truthy_dir_def take_screencast_def
        with_module_def)

text \<open>Claim C5 as stated lets the default format pass without a directory. The code does
  not: a request that supplies \<^verbatim>\<open>format: 'webp'\<close> and no directory is refused like any
  other.\<close>

theorem format_webp_without_directory_counterexample:
  "take_screencast demo_sys (demo_screencast_args\<lparr>sc_format := Some Webp\<rparr>)
     = ([], Inl FormatWithoutDirectory)"
  by (simp add: demo_sys_def demo_screencast_args_def truthy_dir_def take_screencast_def
        with_module_def)

subsection \<open>The viewport cap and the wait time\<close>

lemma save_screenshot_width:
  "save_screenshot s (args\<lparr>ss_width := w\<rparr>) = save_screenshot s args"
  by (rule ext) (simp add: save_screenshot_def cong: option.case_cong screenshot_result.case_cong)

lemma sc_settings_size:
  "sc_format_of (args\<lparr>sc_width := w, sc_height := h\<rparr>) = sc_format_of args"
  "sc_quality_of (args\<lparr>sc_width := w, sc_height := h\<rparr>) = sc_quality_of args"
  "sc_interval_of (args\<lparr>sc_width := w, sc_height := h\<rparr>) = sc_interval_of args"
  by (simp_all add: sc_format_of_def sc_quality_of_def sc_interval_of_def sc_duration_of_def)

lemma sc_settings_wait:
  "sc_format_of (args\<lparr>sc_waitForMS := w\<rparr>) = sc_format_of args"
  "sc_quality_of (args\<lparr>sc_waitForMS := w\<rparr>) = sc_quality_of args"
  "sc_interval_of (args\<lparr>sc_waitForMS := w\<rparr>) = sc_interval_of args"
  by (simp_all add: sc_format_of_def sc_quality_of_def sc_interval_of_def sc_duration_of_def)

lemma save_screencast_size:
  "save_screencast s (args\<lparr>sc_width := w, sc_height := h\<rparr>) = save_screencast s args"
  by (rule ext) (simp add: save_screencast_def sc_settings_size
        cong: option.case_cong if_cong prod.case_cong sum.case_cong)

lemma save_screencast_wait:
  "save_screencast s (args\<lparr>sc_waitForMS := w\<rparr>) = save_screencast s args"
  by (rule ext) (simp add: save_screencast_def sc_settings_wait
        cong: option.case_cong if_cong prod.case_cong sum.case_cong)

lemma take_screenshot_capped:
  assumes "1072 \<le> w"
  shows "take_screenshot s (args\<lparr>ss_width := Some w\<rparr>) = take_screenshot s (args\<lparr>ss_width := None\<rparr>)"
proof -
  have "screenshot_options_of (args\<lparr>ss_width := Some w\<rparr>) = screenshot_options_of (args\<lparr>ss_width := None\<rparr>)"
    using assms by (simp add: screenshot_options_of_def min_def)
  then show ?thesis
    by (simp add: take_screenshot_def Let_def save_screenshot_width)
qed

lemma take_screencast_capped:
  assumes "1072 \<le> w" and "1072 \<le> h"
  shows "take_screencast s (args\<lparr>sc_width := Some w, sc_height := Some h\<rparr>)
       = take_screencast s (args\<lparr>sc_width := None, sc_height := None\<rparr>)"
proof -
  have "screencast_options_of (args\<lparr>sc_width := Some w, sc_height := Some h\<rparr>)
      = screencast_options_of (args\<lparr>sc_width := None, sc_height := None\<rparr>)"
    using assms
    by (simp add: screencast_options_of_def min_def sc_interval_of_def sc_format_of_def
          sc_duration_of_def)
  then show ?thesis
    by (simp add: take_screencast_def Let_def save_screencast_size)
qed

lemma save_screencast_width:
  "save_screencast s (args\<lparr>sc_width := w\<rparr>) = save_screencast s args"
  by (rule ext)
     (simp add: save_screencast_def sc_format_of_def sc_quality_of_def sc_interval_of_def
        sc_duration_of_def cong: option.case_cong if_cong prod.case_cong sum.case_cong)

lemma save_screencast_height:
  "save_screencast s (args\<lparr>sc_height := h\<rparr>) = save_screencast s args"
  by (rule ext)
     (simp add: save_screencast_def sc_format_of_def sc_quality_of_def sc_interval_of_def
        sc_duration_of_def cong: option.case_cong if_cong prod.case_cong sum.case_cong)

lemma take_screenshot_same_width:
  assumes "min (case w1 of None \<Rightarrow> 1072 | Some w \<Rightarrow> w) 1072
         = min (case w2 of None \<Rightarrow> 1072 | Some w \<Rightarrow> w) (1072 :: rat)"
  shows "take_screenshot s (args\<lparr>ss_width := w1\<rparr>) = take_screenshot s (args\<lparr>ss_width := w2\<rparr>)"
proof -
  have "screenshot_options_of (args\<lparr>ss_width := w1\<rparr>) = screenshot_options_of (args\<lparr>ss_width := w2\<rparr>)"
    using assms by (simp add: screenshot_options_of_def)
  then show ?thesis
    by (simp add: take_screenshot_def Let_def save_screenshot_width)
qed

lemma take_screencast_same_width:
  assumes "min (case w1 of None \<Rightarrow> 1072 | Some w \<Rightarrow> w) 1072
         = min (case w2 of None \<Rightarrow> 1072 | Some w \<Rightarrow> w) (1072 :: rat)"
  shows "take_screencast s (args\<lparr>sc_width := w1\<rparr>) = take_screencast s (args\<lparr>sc_width := w2\<rparr>)"
proof -
  have "screencast_options_of (args\<lparr>sc_width := w1\<rparr>) = screencast_options_of (args\<lparr>sc_width := w2\<rparr>)"
    using assms
    by (simp add: screencast_options_of_def sc_interval_of_def sc_format_of_def sc_duration_of_def)
  then show ?thesis
    by (simp add: take_screencast_def Let_def save_screencast_width)
qed

lemma take_screencast_same_height:
  assumes "min (case h1 of None \<Rightarrow> 1072 | Some h \<Rightarrow> h) 1072
         = min (case h2 of None \<Rightarrow> 1072 | Some h \<Rightarrow> h) (1072 :: rat)"
  shows "take_screencast s (args\<lparr>sc_height := h1\<rparr>) = take_screencast s (args\<lparr>sc_height := h2\<rparr>)"
proof -
  have "screencast_options_of (args\<lparr>sc_height := h1\<rparr>) = screencast_options_of (args\<lparr>sc_height := h2\<rparr>)"
    using assms
    by (simp add: screencast_options_of_def sc_interval_of_def sc_format_of_def sc_duration_of_def)
  then show ?thesis
    by (simp add: take_screencast_def Let_def save_screencast_height)
qed

text \<open>
  Claim C9. The width handed to the engine by \<^verbatim>\<open>take_screenshot\<close>, and the width and the
  height handed over by \<^verbatim>\<open>take_screencast\<close>, are the minimum of the requested value and
  1072, with 1072 for an omitted one; these are the options of the only capture call a
  handler makes. The cap is silent. Whatever else a request holds, trace and response
  depend on a requested width, and on a requested height, through the capped value
  alone: two requests that differ in one of them only and have the same capped value get
  the same trace and the same response. So a request for 1072 or more, in the width or
  in the height or in both, is answered exactly like the request that leaves the value
  out.
\<close>

theorem viewport_cap_silent:
  "so_viewport_width (screenshot_options_of args)
     = min (case ss_width args of None \<Rightarrow> 1072 | Some w \<Rightarrow> w) 1072
   \<and> filter is_capture (fst (take_screenshot s args)) =
       (if module_loaded s \<or> import_ok s then [CaptureScreenshot (screenshot_options_of args)] else [])
   \<and> co_viewport_width (screencast_options_of cargs)
       = min (case sc_width cargs of None \<Rightarrow> 1072 | Some w \<Rightarrow> w) 1072
   \<and> co_viewport_height (screencast_options_of cargs)
       = min (case sc_height cargs of None \<Rightarrow> 1072 | Some h \<Rightarrow> h) 1072
   \<and> filter is_capture (fst (take_screencast s cargs)) =
       (if (module_loaded s \<or> import_ok s)
           \<and> (sc_format cargs = None \<or> truthy_dir (sc_directory cargs) \<noteq> None)
        then [CaptureScreencast (screencast_options_of cargs)] else [])
   \<and> (\<forall>w. 1072 \<le> w \<longrightarrow>
          take_screenshot s (args\<lparr>ss_width := Some w\<rparr>) = take_screenshot s (args\<lparr>ss_width := None\<rparr>))
   \<and> (\<forall>w h. 1072 \<le> w \<and> 1072 \<le> h \<longrightarrow>
          take_screencast s (cargs\<lparr>sc_width := Some w, sc_height := Some h\<rparr>)
            = take_screencast s (cargs\<lparr>sc_width := None, sc_height := None\<rparr>))
   \<and> (\<forall>w1 w2. min (case w1 of None \<Rightarrow> 1072 | Some w \<Rightarrow> w) 1072
                 = min (case w2 of None \<Rightarrow> 1072 | Some w \<Rightarrow> w) (1072 :: rat) \<longrightarrow>
          take_screenshot s (args\<lparr>ss_width := w1\<rparr>) = take_screenshot s (args\<lparr>ss_width := w2\<rparr>))
   \<and> (\<forall>w1 w2. min (case w1 of None \<Rightarrow> 1072 | Some w \<Rightarrow> w) 1072
                 = min (case w2 of None \<Rightarrow> 1072 | Some w \<Rightarrow> w) (1072 :: rat) \<longrightarrow>
          take_screencast s (cargs\<lparr>sc_width := w1\<rparr>) = take_screencast s (cargs\<lparr>sc_width := w2\<rparr>))
   \<and> (\<forall>h1 h2. min (case h1 of None \<Rightarrow> 1072 | Some h \<Rightarrow> h) 1072
                 = min (case h2 of None \<Rightarrow> 1072 | Some h \<Rightarrow> h) (1072 :: rat) \<longrightarrow>
          take_screencast s (cargs\<lparr>sc_height := h1\<rparr>) = take_screencast s (cargs\<lparr>sc_height := h2\<rparr>))"
proof -
  have opts: "so_viewport_width (screenshot_options_of args)
       = min (case ss_width args of None \<Rightarrow> 1072 | Some w \<Rightarrow> w) 1072"
    "co_viewport_width (screencast_options_of cargs)
       = min (case sc_width cargs of None \<Rightarrow> 1072 | Some w \<Rightarrow> w) 1072"
    "co_viewport_height (screencast_options_of cargs)
       = min (case sc_height cargs of None \<Rightarrow> 1072 | Some h \<Rightarrow> h) 1072"
    by (simp_all add: screenshot_options_of_def screencast_options_of_def)
  have both: "\<forall>w. 1072 \<le> w \<longrightarrow>
          take_screenshot s (args\<lparr>ss_width := Some w\<rparr>) = take_screenshot s (args\<lparr>ss_width := None\<rparr>)"
    "\<forall>w h. 1072 \<le> w \<and> 1072 \<le> h \<longrightarrow>
          take_screencast s (cargs\<lparr>sc_width := Some w, sc_height := Some h\<rparr>)
            = take_screencast s (cargs\<lparr>sc_width := None, sc_height := None\<rparr>)"
    using take_screenshot_capped[of _ s args] take_screencast_capped[of _ _ s cargs] by blast+
  have one: "\<forall>w1 w2. min (case w1 of None \<Rightarrow> 1072 | Some w \<Rightarrow> w) 1072
                 = min (case w2 of None \<Rightarrow> 1072 | Some w \<Rightarrow> w) (1072 :: rat) \<longrightarrow>
          take_screenshot s (args\<lparr>ss_width := w1\<rparr>) = take_screenshot s (args\<lparr>ss_width := w2\<rparr>)"
    "\<forall>w1 w2. min (case w1 of None \<Rightarrow> 1072 | Some w \<Rightarrow> w) 1072
                 = min (case w2 of None \<Rightarrow> 1072 | Some w \<Rightarrow> w) (1072 :: rat) \<longrightarrow>
          take_screencast s (cargs\<lparr>sc_width := w1\<rparr>) = take_screencast s (cargs\<lparr>sc_width := w2\<rparr>)"
    "\<forall>h1 h2. min (case h1 of None \<Rightarrow> 1072 | Some h \<Rightarrow> h) 1072
                 = min (case h2 of None \<Rightarrow> 1072 | Some h \<Rightarrow> h) (1072 :: rat) \<longrightarrow>
          take_screencast s (cargs\<lparr>sc_height := h1\<rparr>) = take_screencast s (cargs\<lparr>sc_height := h2\<rparr>)"
    using take_screenshot_same_width[of _ _ s args] take_screencast_same_width[of _ _ s cargs]
      take_screencast_same_height[of _ _ s cargs] by blast+
  show ?thesis
    by (intro conjI opts both one captures_take_screenshot captures_take_screencast)
qed

text \<open>A screenshot request for 4000 pixels is captured at 1072 and answered like the
  request that names no width; a screencast request for the width 4000 and the height
  500 is answered like the request for the height 500 alone.\<close>

theorem viewport_cap_silent_witness:
  "min (4000 :: rat) 1072 = min 1072 1072
   \<and> so_viewport_width (screenshot_options_of (demo_screenshot_args\<lparr>ss_width := Some 4000\<rparr>)) = 1072
   \<and> take_screenshot demo_sys (demo_screenshot_args\<lparr>ss_width := Some 4000\<rparr>)
       = take_screenshot demo_sys (demo_screenshot_args\<lparr>ss_width := None\<rparr>)
   \<and> take_screencast demo_sys (demo_screencast_args\<lparr>sc_height := Some 500, sc_width := Some 4000\<rparr>)
       = take_screencast demo_sys (demo_screencast_args\<lparr>sc_height := Some 500, sc_width := None\<rparr>)"
proof -
  note t = viewport_cap_silent [of "demo_screenshot_args\<lparr>ss_width := Some 4000\<rparr>" demo_sys
      "demo_screencast_args\<lparr>sc_height := Some 500\<rparr>"]
  have cap: "min (4000 :: rat) 1072 = min 1072 1072" by simp
  have w: "so_viewport_width (screenshot_options_of (demo_screenshot_args\<lparr>ss_width := Some 4000\<rparr>)) = 1072"
    using t [THEN conjunct1] by simp
  have shot: "take_screenshot demo_sys (demo_screenshot_args\<lparr>ss_width := Some 4000\<rparr>)
       = take_screenshot demo_sys (demo_screenshot_args\<lparr>ss_width := None\<rparr>)"
    using t [THEN conjunct2, THEN conjunct2, THEN conjunct2, THEN conjunct2, THEN conjunct2,
        THEN conjunct2, THEN conjunct2, THEN conjunct1, rule_format, of "Some 4000" None]
    by simp
  have cast: "take_screencast demo_sys (demo_screencast_args\<lparr>sc_height := Some 500, sc_width := Some 4000\<rparr>)
       = take_screencast demo_sys (demo_screencast_args\<lparr>sc_height := Some 500, sc_width := None\<rparr>)"
    using t [THEN conjunct2, THEN conjunct2, THEN conjunct2, THEN conjunct2, THEN conjunct2,
        THEN conjunct2, THEN conjunct2, THEN conjunct2, THEN conjunct1, rule_format,
        of "Some 4000" None]
    by simp
  from cap w shot cast show ?thesis by (intro conjI)
qed

text \<open>
  Claim C10. The options that \<^verbatim>\<open>take_screencast\<close> hands to the engine have no \<^verbatim>\<open>waitFor\<close>,
  whatever the request holds, and a \<^verbatim>\<open>waitForMS\<close> in the request changes neither trace nor
  response; \<^verbatim>\<open>take_screenshot\<close> hands its \<^verbatim>\<open>waitForMS\<close> on as \<^verbatim>\<open>waitFor\<close>.
\<close>

theorem screencast_ignores_wait:
  "co_waitFor (screencast_options_of cargs) = None
   \<and> filter is_capture (fst (take_screencast s cargs)) =
       (if (module_loaded s \<or> import_ok s)
           \<and> (sc_format cargs = None \<or> truthy_dir (sc_directory cargs) \<noteq> None)
        then [CaptureScreencast (screencast_options_of cargs)] else [])
   \<and> take_screencast s (cargs\<lparr>sc_waitForMS := w\<rparr>) = take_screencast s cargs
   \<and> so_waitFor (screenshot_options_of args) = ss_waitForMS args
   \<and> filter is_capture (fst (take_screenshot s args)) =
       (if module_loaded s \<or> import_ok s then [CaptureScreenshot (screenshot_options_of args)] else [])"
proof -
  have "screencast_options_of (cargs\<lparr>sc_waitForMS := w\<rparr>) = screencast_options_of cargs"
    by (simp add: screencast_options_of_def sc_interval_of_def sc_format_of_def sc_duration_of_def)
  then have "take_screencast s (cargs\<lparr>sc_waitForMS := w\<rparr>) = take_screencast s cargs"
    by (simp add: take_screencast_def Let_def save_screencast_wait)
  then show ?thesis
    using captures_take_screenshot[of s args] captures_take_screencast[of s cargs]
    by (simp add: screenshot_options_of_def screencast_options_of_def)
qed

text \<open>A wait of 500 ms reaches the engine from a screenshot request and not from a
  screencast request.\<close>

theorem screencast_ignores_wait_witness:
  "filter is_capture (fst (take_screencast demo_sys (demo_screencast_args\<lparr>sc_waitForMS := Some 500\<rparr>)))
     = [CaptureScreencast
         \<lparr>co_url = ''https://example.com/'', co_duration = 10, co_interval = 2,
          co_viewport_width = 1072, co_viewport_height = 1072,
          co_waitUntil = ''domcontentloaded'', co_waitFor = None, co_jsEvaluate = None\<rparr>]
   \<and> filter is_capture (fst (take_screenshot demo_sys (demo_screenshot_args\<lparr>ss_waitForMS := Some 500\<rparr>)))
     = [CaptureScreenshot
         \<lparr>so_url = ''https://example.com/'', so_viewport_width = 1072, so_fullPage = True,
          so_waitUntil = ''domcontentloaded'', so_waitFor = Some 500\<rparr>]"
  using screencast_ignores_wait [of "demo_screencast_args\<lparr>sc_waitForMS := Some 500\<rparr>" demo_sys
      "Some 500" "demo_screenshot_args\<lparr>ss_waitForMS := Some 500\<rparr>"]
  by (simp add: demo_sys_def demo_screencast_args_def demo_screenshot_args_def
        screencast_options_of_def screenshot_options_of_def truthy_dir_def
        sc_format_of_def sc_duration_of_def sc_interval_of_def screencast_interval_def)

subsection \<open>The temporary directory of the assembler\<close>



lemma no_rm_writes [simp]:
  "filter is_rm (map (\<lambda>(p, b). WriteFile p b (write_ok s p)) files) = []"
  by (induction files) auto

lemma writes_not_exec [simp]:
  "Exec bin args cwd ok \<notin> set (map (\<lambda>(p, b). WriteFile p b (write_ok s p)) files)"
  by (induction files) auto

lemma writes_not_read [simp]:
  "ReadFile p ok \<notin> set (map (\<lambda>(p, b). WriteFile p b (write_ok s p)) files)"
  by (induction files) auto

text \<open>The assembler, path by path.\<close>

lemma createAnimatedWebP_paths:
  "createAnimatedWebP s frames delay endDelay q =
     (let tempDir = temp_dir s;
          IMG2WEBP = path_join s [module_dir s, ''bin'', binary_name s];
          uniqueFrames = apply_end_delay endDelay (collapse_frames (sha1 s) delay frames);
          files = map (\<lambda>(i, frame). (path_join s [tempDir, ''f'' @ show_nat i @ ''.png''], buf frame))
                    (enumerate 0 uniqueFrames);
          writes = map (\<lambda>(p, b). WriteFile p b (write_ok s p)) files;
          args = encoder_args s q uniqueFrames;
          out = path_join s [tempDir, ''out.webp'']
      in if \<not> mkdir_ok s tempDir then ([Mkdir tempDir False], Inl (MkdirFailed tempDir))
         else case filter (\<lambda>(p, b). \<not> write_ok s p) files of
           (p, b) # _ \<Rightarrow> (Mkdir tempDir True # writes @ [Rm tempDir (rm_ok s 0)], Inl (WriteFailed p))
         | [] \<Rightarrow>
             if \<not> exec_ok s IMG2WEBP args
             then (Mkdir tempDir True # writes
                     @ [Exec IMG2WEBP args tempDir False, Rm tempDir (rm_ok s 0)], Inl EncoderFailed)
             else case read_file s out of
               None \<Rightarrow> (Mkdir tempDir True # writes
                          @ [Exec IMG2WEBP args tempDir True, ReadFile out False, Rm tempDir (rm_ok s 0)],
                        Inl (ReadFailed out))
             | Some result \<Rightarrow>
                 if rm_ok s 0
                 then (Mkdir tempDir True # writes
                         @ [Exec IMG2WEBP args tempDir True, ReadFile out True, Rm tempDir True],
                       Inr result)
                 else (Mkdir tempDir True # writes
                         @ [Exec IMG2WEBP args tempDir True, ReadFile out True, Rm tempDir False,
                            Rm tempDir (rm_ok s 1)],
                       Inl (RmFailed tempDir)))"
  by (simp add: createAnimatedWebP_def assemble_def Let_def bind_io_def io_mkdir_def
        io_write_all_def io_exec_def io_read_def io_rm_def
        split: list.splits option.splits prod.splits)





subsection \<open>The encoder binary\<close>






subsection \<open>File names\<close>

lemma sanitize_hostname_chars:
  "c \<in> set (sanitize_hostname h) \<Longrightarrow> is_alnum c \<or> c = CHR ''_''"
  by (auto simp: sanitize_hostname_def)

lemma no_dot_sanitize: "CHR ''.'' \<notin> set (sanitize_hostname h)"
  using sanitize_hostname_chars[of "CHR ''.''" h] by (auto simp: is_alnum_def)

lemma no_dot_stamp: "CHR ''.'' \<notin> set (stamp t)"
  by (auto simp: stamp_def)

lemma replace_first_extension:
  "CHR ''.'' \<notin> set xs \<Longrightarrow> replace_first ''.png'' ''.webp'' (xs @ ''.png'') = xs @ ''.webp''"
proof (induction xs)
  case Nil
  then show ?case by simp
next
  case (Cons a xs)
  then have a: "a \<noteq> CHR ''.''" and xs: "CHR ''.'' \<notin> set xs" by auto
  have "hd (take (length ''.png'') ((a # xs) @ ''.png'')) = a"
    by simp
  with a have "take (length ''.png'') ((a # xs) @ ''.png'') \<noteq> ''.png''"
    by (metis list.sel(1))
  then have "replace_first ''.png'' ''.webp'' ((a # xs) @ ''.png'')
      = a # replace_first ''.png'' ''.webp'' (xs @ ''.png'')"
    by (metis append_Cons replace_first.simps(2))
  with Cons.IH[OF xs] show ?case by simp
qed

lemma generateFilename_named:
  "hostname_of s url = Some host \<Longrightarrow>
     generateFilename s tick url index prefix
       = Inr (named prefix (sanitize_hostname host) (stamp (now_iso s tick)) (map_option Suc index) ''.png'')"
  by (simp add: generateFilename_def named_def Let_def split: option.splits)

lemma webp_name:
  "replace_first ''.png'' ''.webp'' (named ''screencast'' (sanitize_hostname host) (stamp t) None ''.png'')
     = named ''screencast'' (sanitize_hostname host) (stamp t) None ''.webp''"
proof -
  have "CHR ''.'' \<notin> set (''screencast_'' @ sanitize_hostname host @ ''_'' @ stamp t)"
    using no_dot_sanitize[of host] no_dot_stamp[of t] by simp
  from replace_first_extension[OF this] show ?thesis by (simp add: named_def)
qed

lemma named_timestamp:
  "named prefix h t1 frame ext = named prefix h t2 frame ext \<Longrightarrow> t1 = t2"
  by (simp add: named_def)

lemma generateFilename_cases:
  "generateFilename s tick url index prefix =
     (case hostname_of s url of
        None \<Rightarrow> Inl InvalidUrl
      | Some host \<Rightarrow>
          Inr (named prefix (sanitize_hostname host) (stamp (now_iso s tick)) (map_option Suc index) ''.png''))"
  by (simp add: generateFilename_def named_def Let_def split: option.splits)

lemma save_buffers_writes:
  assumes "e \<in> set (fst (save_buffers s directory url prefix i bs))"
  shows "\<exists>host k b ok. hostname_of s url = Some host \<and> e = WriteFile (path_join s [directory,
            named prefix (sanitize_hostname host) (stamp (now_iso s k)) (Some (k + 1)) ''.png'']) b ok"
  using assms
proof (induction bs arbitrary: i)
  case Nil
  then show ?case by simp
next
  case (Cons b bs)
  from Cons.prems show ?case
    using Cons.IH[of "Suc i"]
    by (auto simp: generateFilename_cases Let_def fst_bind_io io_write_def
          split: sum.splits if_splits option.splits)
qed

lemma save_single_writes:
  assumes "e \<in> set (fst (save_single s directory url b))"
  shows "\<exists>host ok. hostname_of s url = Some host \<and> e = WriteFile (path_join s [directory,
            named ''screenshot'' (sanitize_hostname host) (stamp (now_iso s 0)) None ''.png'']) b ok"
  using assms
  by (auto simp: save_single_def generateFilename_cases Let_def fst_bind_io io_write_def
        split: sum.splits if_splits option.splits)

lemma save_webp_writes:
  assumes "e \<in> set (fst (save_webp s directory url b))"
  shows "\<exists>host ok. hostname_of s url = Some host \<and> e = WriteFile (path_join s [directory,
            named ''screencast'' (sanitize_hostname host) (stamp (now_iso s 0)) None ''.webp'']) b ok"
  using assms
  by (auto simp: save_webp_def generateFilename_cases webp_name Let_def fst_bind_io
        io_write_def split: sum.splits if_splits option.splits)

lemma in_fst_bind_io:
  "e \<in> set (fst (bind_io m f)) \<Longrightarrow>
     e \<in> set (fst m) \<or> (\<exists>x. snd m = Inr x \<and> e \<in> set (fst (f x)))"
  by (auto simp: fst_bind_io split: sum.splits)

lemma ensure_dir_writes: "WriteFile p b ok \<notin> set (fst (ensure_dir s directory))"
  by (auto simp: ensure_dir_def fst_bind_io io_mkdir_def)

lemma createAnimatedWebP_writes:
  assumes "WriteFile p b ok \<in> set (fst (createAnimatedWebP s frames delay endDelay q))"
  shows "\<exists>i. p = path_join s [temp_dir s, ''f'' @ show_nat i @ ''.png'']"
  using assms unfolding createAnimatedWebP_paths Let_def
  by (auto split: if_splits list.splits option.splits)

lemma take_screenshot_writes:
  assumes "WriteFile p b ok \<in> set (fst (take_screenshot s args))"
  shows "\<exists>dir host tick frame. truthy_dir (ss_directory args) = Some dir
           \<and> hostname_of s (ss_url args) = Some host
           \<and> p = path_join s [dir, named ''screenshot'' (sanitize_hostname host)
                                     (stamp (now_iso s tick)) frame ''.png'']"
proof -
  from assms obtain result where
    w: "WriteFile p b ok \<in> set (fst (save_screenshot s args result))"
    by (auto simp: take_screenshot_def with_module_def Let_def io_capture_def fst_bind_io
          split: if_splits sum.splits)
  then obtain dir where dir: "truthy_dir (ss_directory args) = Some dir"
    by (cases "truthy_dir (ss_directory args)")
       (auto simp: save_screenshot_def split: screenshot_result.splits)
  from w dir have "WriteFile p b ok \<in> set (fst (save_single s dir (ss_url args) (case result of RegularScreenshot sh w h \<Rightarrow> sh | _ \<Rightarrow> [])))
      \<or> (\<exists>tiles. WriteFile p b ok \<in> set (fst (save_buffers s dir (ss_url args) ''screenshot'' 0 tiles)))"
    using ensure_dir_writes[of p b ok s dir]
    by (auto simp: save_screenshot_def dest!: in_fst_bind_io split: screenshot_result.splits)
  then show ?thesis
    using dir by (auto dest!: save_single_writes save_buffers_writes)
qed


lemma save_screencast_writes:
  assumes "WriteFile p b ok \<in> set (fst (save_screencast s args result))"
  shows "(\<exists>i. p = path_join s [temp_dir s, ''f'' @ show_nat i @ ''.png''])
       \<or> (\<exists>dir host tick. truthy_dir (sc_directory args) = Some dir
             \<and> hostname_of s (sc_url args) = Some host
             \<and> (p = path_join s [dir, named ''frame'' (sanitize_hostname host)
                                        (stamp (now_iso s tick)) (Some (tick + 1)) ''.png'']
                \<or> p = path_join s [dir, named ''screencast'' (sanitize_hostname host)
                                        (stamp (now_iso s 0)) None ''.webp'']))"
proof -
  from assms obtain dir where dir: "truthy_dir (sc_directory args) = Some dir"
    by (cases "truthy_dir (sc_directory args)") (auto simp: save_screencast_def Let_def)
  let ?asm = "createAnimatedWebP s (res_frames result) (sc_interval_of args * 1000) (Some 4000)
                (sc_quality_of args)"
  from assms dir have
    "WriteFile p b ok \<in> set (fst ?asm)
     \<or> WriteFile p b ok \<in> set (fst (save_buffers s dir (sc_url args) ''frame'' 0 (res_frames result)))
     \<or> (\<exists>webp. WriteFile p b ok \<in> set (fst (save_webp s dir (sc_url args) webp)))"
    using ensure_dir_writes[of p b ok s dir]
    by (cases ?asm)
       (auto simp: save_screencast_def Let_def dest!: in_fst_bind_io split: if_splits sum.splits)
  then show ?thesis
  proof (elim disjE exE)
    assume "WriteFile p b ok \<in> set (fst ?asm)"
    from createAnimatedWebP_writes[OF this] show ?thesis by blast
  next
    assume "WriteFile p b ok \<in> set (fst (save_buffers s dir (sc_url args) ''frame'' 0 (res_frames result)))"
    from save_buffers_writes[OF this] dir show ?thesis by auto
  next
    fix webp
    assume "WriteFile p b ok \<in> set (fst (save_webp s dir (sc_url args) webp))"
    from save_webp_writes[OF this] dir show ?thesis by auto
  qed
qed

lemma take_screencast_writes:
  assumes "WriteFile p b ok \<in> set (fst (take_screencast s args))"
  shows "(\<exists>i. p = path_join s [temp_dir s, ''f'' @ show_nat i @ ''.png''])
       \<or> (\<exists>dir host tick. truthy_dir (sc_directory args) = Some dir
             \<and> hostname_of s (sc_url args) = Some host
             \<and> (p = path_join s [dir, named ''frame'' (sanitize_hostname host)
                                        (stamp (now_iso s tick)) (Some (tick + 1)) ''.png'']
                \<or> p = path_join s [dir, named ''screencast'' (sanitize_hostname host)
                                        (stamp (now_iso s 0)) None ''.webp'']))"
proof -
  from assms obtain result where
    "WriteFile p b ok \<in> set (fst (save_screencast s args result))"
    by (auto simp: take_screencast_def with_module_def Let_def io_capture_def fst_bind_io
          split: if_splits sum.splits)
  from save_screencast_writes[OF this] show ?thesis .
qed

text \<open>
  Claim C8, as the code has it. \<^verbatim>\<open>generateFilename\<close> yields
  \<^verbatim>\<open><prefix>_<sanitizedHostname>_<timestamp>[_frame<N>].png\<close> with \<open>N\<close> the index plus one;
  the sanitized host name consists of letters, digits and underscores; names that differ
  in the time stamp only are different names. Every file that \<^verbatim>\<open>take_screenshot\<close> writes
  is so named in the directory of the request, with the prefix \<^verbatim>\<open>screenshot\<close>. A file that
  \<^verbatim>\<open>take_screencast\<close> writes is a frame so named with the prefix \<^verbatim>\<open>frame\<close>, or the animation
  \<^verbatim>\<open>screencast_<sanitizedHostname>_<timestamp>.webp\<close>, or one of the assembler's files
  \<^verbatim>\<open>f<i>.png\<close> in its temporary directory.
\<close>

theorem generated_file_names:
  "generateFilename s tick url index prefix =
     (case hostname_of s url of
        None \<Rightarrow> Inl InvalidUrl
      | Some host \<Rightarrow>
          Inr (named prefix (sanitize_hostname host) (stamp (now_iso s tick)) (map_option Suc index) ''.png''))
   \<and> (\<forall>c \<in> set (sanitize_hostname h). is_alnum c \<or> c = CHR ''_'')
   \<and> (named prefix h t1 frame ext = named prefix h t2 frame ext \<longrightarrow> t1 = t2)
   \<and> (\<forall>p b ok. WriteFile p b ok \<in> set (fst (take_screenshot s args)) \<longrightarrow>
         (\<exists>dir host tick frame. truthy_dir (ss_directory args) = Some dir
           \<and> hostname_of s (ss_url args) = Some host
           \<and> p = path_join s [dir, named ''screenshot'' (sanitize_hostname host)
                                     (stamp (now_iso s tick)) frame ''.png'']))
   \<and> (\<forall>p b ok. WriteFile p b ok \<in> set (fst (take_screencast s cargs)) \<longrightarrow>
         (\<exists>i. p = path_join s [temp_dir s, ''f'' @ show_nat i @ ''.png''])
       \<or> (\<exists>dir host tick. truthy_dir (sc_directory cargs) = Some dir
             \<and> hostname_of s (sc_url cargs) = Some host
             \<and> (p = path_join s [dir, named ''frame'' (sanitize_hostname host)
                                        (stamp (now_iso s tick)) (Some (tick + 1)) ''.png'']
                \<or> p = path_join s [dir, named ''screencast'' (sanitize_hostname host)
                                        (stamp (now_iso s 0)) None ''.webp''])))"
  using generateFilename_cases[of s tick url index prefix] sanitize_hostname_chars[of _ h]
    named_timestamp[of prefix h t1 frame ext t2]
    take_screenshot_writes[of _ _ _ s args] take_screencast_writes[of _ _ _ s cargs]
  by blast

text \<open>A regular screenshot into the directory \<^verbatim>\<open>out\<close>.\<close>

theorem generated_file_names_witness:
  "written (fst (take_screenshot demo_sys (demo_screenshot_args\<lparr>ss_directory := Some ''out''\<rparr>)))
     = [(''out/screenshot_example_com_2026-11-03T09-20-00-000Z.png'', [1, 2, 3])]
   \<and> generateFilename demo_sys 4 ''https://example.com/'' (Some 4) ''frame''
       = Inr ''frame_example_com_2026-11-03T09-20-00-004Z_frame5.png''"
  using generated_file_names [where s = demo_sys and tick = 4 and url = "''https://example.com/''"
      and index = "Some 4" and prefix = "''frame''" and h = "''example.com''"
      and ?t1.0 = "''2026''" and ?t2.0 = "''2026''" and frame = None and ext = "''.png''"
      and args = "demo_screenshot_args\<lparr>ss_directory := Some ''out''\<rparr>"
      and cargs = demo_screencast_args]
  by (simp add: demo_sys_def demo_screenshot_args_def take_screenshot_def with_module_def
        screenshot_options_of_def io_capture_def bind_io_def save_screenshot_def truthy_dir_def
        ensure_dir_def save_single_def generateFilename_def sanitize_hostname_def is_alnum_def
        stamp_def io_write_def show_nat.simps named_def Let_def)

text \<open>
  Claim C8 as stated gives every written file the extension \<^verbatim>\<open>.png\<close> and the pattern. A
  screencast into a directory writes the animation under a name that ends in \<^verbatim>\<open>.webp\<close>,
  after the assembler has written its frames as \<^verbatim>\<open>f0.png\<close>, \<^verbatim>\<open>f1.png\<close> in its temporary
  directory.
\<close>

theorem webp_file_name_counterexample:
  "written (fst (take_screencast demo_sys (demo_screencast_args\<lparr>sc_directory := Some ''out''\<rparr>)))
     = [(''/tmp/webp-0000/f0.png'', [1]),
        (''/tmp/webp-0000/f1.png'', [2, 2]),
        (''out/screencast_example_com_2026-11-03T09-20-00-000Z.webp'', [7, 7])]"
  by (simp add: demo_sys_def demo_screencast_args_def take_screencast_def with_module_def
        screencast_options_of_def io_capture_def bind_io_def save_screencast_def truthy_dir_def
        sc_format_of_def sc_quality_of_def sc_interval_of_def sc_duration_of_def
        screencast_interval_def createAnimatedWebP_paths temp_dir_def binary_name_def
        collapse_frames_def push_frame_def apply_end_delay_def encoder_args_def quality_value_def
        ensure_dir_def save_webp_def generateFilename_def sanitize_hostname_def is_alnum_def
        stamp_def io_write_def show_nat.simps Let_def)

subsection \<open>The fallback to single frames\<close>

lemma written_append: "written (a @ b) = written a @ written b"
  by (induction a rule: written.induct) auto

lemma written_ensure_dir: "written (fst (ensure_dir s directory)) = []"
  by (simp add: ensure_dir_def fst_bind_io io_mkdir_def)

lemma ensure_dir_ok:
  "exists_sync s directory \<or> mkdir_ok s directory \<Longrightarrow> snd (ensure_dir s directory) = Inr ()"
  by (auto simp: ensure_dir_def snd_bind_io io_mkdir_def)

lemma save_buffers_ok:
  assumes "hostname_of s url = Some host"
    and "\<forall>(k, b) \<in> set (enumerate i bs). write_ok s (path_join s [directory,
            named prefix (sanitize_hostname host) (stamp (now_iso s k)) (Some (k + 1)) ''.png''])"
  shows "save_buffers s directory url prefix i bs =
     (map (\<lambda>(k, b). WriteFile (path_join s [directory,
            named prefix (sanitize_hostname host) (stamp (now_iso s k)) (Some (k + 1)) ''.png'']) b True)
          (enumerate i bs),
      Inr (map (\<lambda>(k, b). path_join s [directory,
            named prefix (sanitize_hostname host) (stamp (now_iso s k)) (Some (k + 1)) ''.png''])
          (enumerate i bs)))"
  using assms(2)
proof (induction bs arbitrary: i)
  case Nil
  then show ?case by simp
next
  case (Cons b bs)
  from Cons.prems have rest: "\<forall>(k, b) \<in> set (enumerate (Suc i) bs). write_ok s (path_join s [directory,
            named prefix (sanitize_hostname host) (stamp (now_iso s k)) (Some (k + 1)) ''.png''])"
    by simp
  from Cons.prems have here: "write_ok s (path_join s [directory,
            named prefix (sanitize_hostname host) (stamp (now_iso s i)) (Some (i + 1)) ''.png''])"
    by simp
  show ?case
    using here Cons.IH[OF rest]
    by (simp add: generateFilename_named[OF assms(1)] Let_def bind_io_def io_write_def)
qed

lemma written_frames:
  "written (map (\<lambda>(k, b). WriteFile (f k) b True) kbs) = map (\<lambda>(k, b). (f k, b)) kbs"
  by (induction kbs) auto


lemma save_screencast_fallback:
  assumes dir: "truthy_dir (sc_directory args) = Some dir"
    and fmt: "sc_format args \<noteq> Some Png"
    and ens: "exists_sync s dir \<or> mkdir_ok s dir"
    and enc: "createAnimatedWebP s (res_frames result) (sc_interval_of args * 1000) (Some 4000)
                (sc_quality_of args) = (asm, Inl e)"
    and host: "hostname_of s (sc_url args) = Some host"
    and wr: "\<forall>(k, b) \<in> set (enumerate 0 (res_frames result)). write_ok s (path_join s [dir, named ''frame'' (sanitize_hostname host) (stamp (now_iso s k)) (Some (k + 1)) ''.png''])"
  shows "save_screencast s args result =
     (fst (ensure_dir s dir) @ asm
        @ map (\<lambda>(k, b). WriteFile (path_join s [dir, named ''frame'' (sanitize_hostname host) (stamp (now_iso s k)) (Some (k + 1)) ''.png'']) b True) (enumerate 0 (res_frames result)),
      Inr [TextContent
        (warning_sign @ ''  WebP creation failed, saved as PNG frames:'' @ nl
         @ join_with nl (map (\<lambda>(k, b). (path_join s [dir, named ''frame'' (sanitize_hostname host) (stamp (now_iso s k)) (Some (k + 1)) ''.png''])) (enumerate 0 (res_frames result))) @ nl @ nl
         @ ''Duration: '' @ show_num s (res_duration result) @ ''s'' @ nl
         @ ''Frames: '' @ show_nat (length (res_frames result)) @ nl
         @ ''Interval: '' @ show_num s (sc_interval_of args) @ ''s'')])"
proof -
  have f: "sc_format_of args = Webp"
    using fmt by (cases "sc_format args") (auto simp: sc_format_of_def intro: format.exhaust)
  obtain tr0 where e: "ensure_dir s dir = (tr0, Inr ())"
    using ensure_dir_ok[OF ens] by (metis prod.collapse)
  show ?thesis
    unfolding save_screencast_def Let_def dir f
    by (simp add: e bind_io_def enc save_buffers_ok[OF host wr])
qed

lemma save_screencast_png:
  assumes dir: "truthy_dir (sc_directory args) = Some dir"
    and ens: "exists_sync s dir \<or> mkdir_ok s dir"
    and host: "hostname_of s (sc_url args) = Some host"
    and wr: "\<forall>(k, b) \<in> set (enumerate 0 (res_frames result)). write_ok s (path_join s [dir, named ''frame'' (sanitize_hostname host) (stamp (now_iso s k)) (Some (k + 1)) ''.png''])"
  shows "fst (save_screencast s (args\<lparr>sc_format := Some Png\<rparr>) result) =
     fst (ensure_dir s dir)
        @ map (\<lambda>(k, b). WriteFile (path_join s [dir, named ''frame'' (sanitize_hostname host) (stamp (now_iso s k)) (Some (k + 1)) ''.png'']) b True) (enumerate 0 (res_frames result))"
proof -
  obtain tr0 where e: "ensure_dir s dir = (tr0, Inr ())"
    using ensure_dir_ok[OF ens] by (metis prod.collapse)
  show ?thesis
    unfolding save_screencast_def Let_def
    using dir by (simp add: sc_format_of_def e bind_io_def save_buffers_ok[OF host wr])
qed

text \<open>
  Claim C4. A \<^verbatim>\<open>webp\<close> screencast into a directory whose assembly fails, for whatever
  reason, is answered and not refused: the response is the one text that reports the
  failed WebP creation and lists the frame files; besides the assembler's own temporary
  files, the files written are the captured frames, one file each, and they are the
  files that the \<^verbatim>\<open>png\<close> branch writes for the same capture. (The module is available,
  the capture succeeds, the directory exists or can be made, the URL has a host name
  and the frame files can be written.)
\<close>

theorem webp_fallback:
  assumes avail: "module_loaded s \<or> import_ok s"
    and dir: "truthy_dir (sc_directory args) = Some dir"
    and fmt: "sc_format args \<noteq> Some Png"
    and cap: "captureScreencast s (screencast_options_of args) = Inr result"
    and ens: "exists_sync s dir \<or> mkdir_ok s dir"
    and enc: "createAnimatedWebP s (res_frames result) (sc_interval_of args * 1000) (Some 4000)
                (sc_quality_of args) = (asm, Inl e)"
    and host: "hostname_of s (sc_url args) = Some host"
    and wr: "\<forall>(k, b) \<in> set (enumerate 0 (res_frames result)). write_ok s (path_join s [dir, named ''frame'' (sanitize_hostname host) (stamp (now_iso s k)) (Some (k + 1)) ''.png''])"
  shows "snd (take_screencast s args) =
      Inr [TextContent
        (warning_sign @ ''  WebP creation failed, saved as PNG frames:'' @ nl
         @ join_with nl (map (\<lambda>(k, b). (path_join s [dir, named ''frame'' (sanitize_hostname host) (stamp (now_iso s k)) (Some (k + 1)) ''.png''])) (enumerate 0 (res_frames result))) @ nl @ nl
         @ ''Duration: '' @ show_num s (res_duration result) @ ''s'' @ nl
         @ ''Frames: '' @ show_nat (length (res_frames result)) @ nl
         @ ''Interval: '' @ show_num s (sc_interval_of args) @ ''s'')]
    \<and> written (fst (take_screencast s args))
        = written asm @ map (\<lambda>(k, b). ((path_join s [dir, named ''frame'' (sanitize_hostname host) (stamp (now_iso s k)) (Some (k + 1)) ''.png'']), b)) (enumerate 0 (res_frames result))
    \<and> written (fst (save_screencast s (args\<lparr>sc_format := Some Png\<rparr>) result))
        = map (\<lambda>(k, b). ((path_join s [dir, named ''frame'' (sanitize_hostname host) (stamp (now_iso s k)) (Some (k + 1)) ''.png'']), b)) (enumerate 0 (res_frames result))
    \<and> map snd (map (\<lambda>(k, b). ((path_join s [dir, named ''frame'' (sanitize_hostname host) (stamp (now_iso s k)) (Some (k + 1)) ''.png'']), b)) (enumerate 0 (res_frames result))) = res_frames result"
proof -
  note fb = save_screencast_fallback[OF dir fmt ens enc host wr]
  have body: "take_screencast s args =
      with_module s (bind_io (io_capture (CaptureScreencast (screencast_options_of args)) (Inr result))
         (\<lambda>result. save_screencast s args result))"
    using dir by (simp add: take_screencast_def Let_def cap)
  have resp: "snd (take_screencast s args) = snd (save_screencast s args result)"
    using avail by (auto simp: body with_module_def snd_bind_io io_capture_def)
  have wri: "written (fst (take_screencast s args)) = written (fst (save_screencast s args result))"
    using avail by (auto simp: body with_module_def fst_bind_io io_capture_def written_append)
  have png: "written (fst (save_screencast s (args\<lparr>sc_format := Some Png\<rparr>) result))
        = map (\<lambda>(k, b). ((path_join s [dir, named ''frame'' (sanitize_hostname host) (stamp (now_iso s k)) (Some (k + 1)) ''.png'']), b)) (enumerate 0 (res_frames result))"
    using save_screencast_png[OF dir ens host wr]
    by (simp add: written_append written_ensure_dir written_frames)
  have frames: "map snd (map (\<lambda>(k, b). ((path_join s [dir, named ''frame'' (sanitize_hostname host) (stamp (now_iso s k)) (Some (k + 1)) ''.png'']), b)) (enumerate 0 (res_frames result))) = res_frames result"
    by (simp add: comp_def case_prod_unfold)
  show ?thesis
    using png frames
    by (simp add: resp wri fb written_append written_ensure_dir written_frames)
qed


text \<open>The encoder fails on a ten-second screencast of three frames into \<^verbatim>\<open>out\<close>: the
  response reports the fallback, and the three frames are in \<^verbatim>\<open>out\<close>.\<close>

theorem webp_fallback_witness:
  "snd (take_screencast (demo_sys\<lparr>exec_ok := (\<lambda>bin args. False)\<rparr>)
          (demo_screencast_args\<lparr>sc_directory := Some ''out''\<rparr>))
     = Inr [TextContent
        (warning_sign @ ''  WebP creation failed, saved as PNG frames:'' @ nl
         @ ''out/frame_example_com_2026-11-03T09-20-00-000Z_frame1.png'' @ nl
         @ ''out/frame_example_com_2026-11-03T09-20-00-001Z_frame2.png'' @ nl
         @ ''out/frame_example_com_2026-11-03T09-20-00-002Z_frame3.png'' @ nl @ nl
         @ ''Duration: 10s'' @ nl @ ''Frames: 3'' @ nl @ ''Interval: 0.2s'')]
   \<and> written (fst (take_screencast (demo_sys\<lparr>exec_ok := (\<lambda>bin args. False)\<rparr>)
          (demo_screencast_args\<lparr>sc_directory := Some ''out''\<rparr>)))
     = [(''/tmp/webp-0000/f0.png'', [1]),
        (''/tmp/webp-0000/f1.png'', [2, 2]),
        (''out/frame_example_com_2026-11-03T09-20-00-000Z_frame1.png'', [1]),
        (''out/frame_example_com_2026-11-03T09-20-00-001Z_frame2.png'', [1]),
        (''out/frame_example_com_2026-11-03T09-20-00-002Z_frame3.png'', [2, 2])]"
proof -
  let ?s = "demo_sys\<lparr>exec_ok := (\<lambda>bin args. False)\<rparr>"
  let ?a = "demo_screencast_args\<lparr>sc_directory := Some ''out''\<rparr>"
  let ?result = "\<lparr>res_frames = [[1], [1], [2, 2]], res_duration = 10, res_interval = 0.2\<rparr>"
  let ?asm = "[Mkdir ''/tmp/webp-0000'' True,
         WriteFile ''/tmp/webp-0000/f0.png'' [1] True,
         WriteFile ''/tmp/webp-0000/f1.png'' [2, 2] True,
         Exec ''/app/dist/bin/img2webp-linux''
           [''-min_size'', ''-mixed'', ''-loop'', ''0'', ''-q'', ''75'', ''-m'', ''6'',
            ''-d'', ''400'', ''f0.png'', ''-d'', ''4000'', ''f1.png'', ''-o'', ''out.webp'']
           ''/tmp/webp-0000'' False,
         Rm ''/tmp/webp-0000'' True]"
  have avail: "module_loaded ?s \<or> import_ok ?s" by (simp add: demo_sys_def)
  have dir: "truthy_dir (sc_directory ?a) = Some ''out''"
    by (simp add: demo_screencast_args_def truthy_dir_def)
  have fmt: "sc_format ?a \<noteq> Some Png" by (simp add: demo_screencast_args_def)
  have iv: "sc_interval_of ?a = 0.2"
    by (simp add: demo_screencast_args_def sc_interval_of_def sc_format_of_def sc_duration_of_def
          screencast_interval_def truthy_dir_def)
  have q: "sc_quality_of ?a = Medium" by (simp add: demo_screencast_args_def sc_quality_of_def)
  have cap: "captureScreencast ?s (screencast_options_of ?a) = Inr ?result"
    using iv by (simp add: demo_sys_def screencast_options_of_def sc_duration_of_def
          demo_screencast_args_def)
  have ens: "exists_sync ?s ''out'' \<or> mkdir_ok ?s ''out''" by (simp add: demo_sys_def)
  have enc: "createAnimatedWebP ?s (res_frames ?result) (sc_interval_of ?a * 1000) (Some 4000)
                (sc_quality_of ?a) = (?asm, Inl EncoderFailed)"
    unfolding iv q
    by (simp add: createAnimatedWebP_paths demo_sys_def temp_dir_def binary_name_def
          collapse_frames_def push_frame_def apply_end_delay_def encoder_args_def
          quality_value_def show_nat.simps Let_def)
  have host: "hostname_of ?s (sc_url ?a) = Some ''example.com''"
    by (simp add: demo_sys_def demo_screencast_args_def)
  have wr: "\<forall>(k, b) \<in> set (enumerate 0 (res_frames ?result)). write_ok ?s
       (path_join ?s [''out'', named ''frame'' (sanitize_hostname ''example.com'')
          (stamp (now_iso ?s k)) (Some (k + 1)) ''.png''])"
    by (simp add: demo_sys_def)
  have tm: "now_iso demo_sys 0 = ''2026-11-03T09:20:00.000Z''"
    "now_iso demo_sys (Suc 0) = ''2026-11-03T09:20:00.001Z''"
    "now_iso demo_sys (Suc (Suc 0)) = ''2026-11-03T09:20:00.002Z''"
    "path_join demo_sys = join_with ''/''"
    "show_num demo_sys 10 = ''10''" "show_num demo_sys (1 / 5) = ''0.2''"
    by (simp_all add: demo_sys_def show_nat.simps)
  from webp_fallback [OF avail dir fmt cap ens enc host wr]
  show ?thesis
    by (simp add: iv tm named_def sanitize_hostname_def is_alnum_def stamp_def show_nat.simps)
qed

subsection \<open>The end delay of the assembled animation\<close>

lemma createAnimatedWebP_execs:
  assumes "Exec bin eargs cwd ok \<in> set (fst (createAnimatedWebP s frames delay endDelay q))"
  shows "eargs = encoder_args s q (apply_end_delay endDelay (collapse_frames (sha1 s) delay frames))"
  using assms unfolding createAnimatedWebP_paths Let_def
  by (auto split: if_splits list.splits option.splits)

lemma save_buffers_execs:
  "Exec bin eargs cwd ok \<notin> set (fst (save_buffers s directory url prefix i bs))"
  using save_buffers_writes[of "Exec bin eargs cwd ok" s directory url prefix i bs] by auto

lemma save_webp_execs:
  "Exec bin eargs cwd ok \<notin> set (fst (save_webp s directory url b))"
  using save_webp_writes[of "Exec bin eargs cwd ok" s directory url b] by auto

lemma ensure_dir_execs: "Exec bin eargs cwd ok \<notin> set (fst (ensure_dir s directory))"
  by (auto simp: ensure_dir_def fst_bind_io io_mkdir_def)

lemma webp_delay:
  assumes "truthy_dir (sc_directory args) \<noteq> None" and "sc_format_of args = Webp"
  shows "sc_interval_of args * 1000 \<in> {100, 200, 500}"
  using assms by (simp add: sc_interval_of_def screencast_interval_def)

lemma save_screencast_execs:
  assumes "Exec bin eargs cwd ok \<in> set (fst (save_screencast s args result))"
  shows "truthy_dir (sc_directory args) \<noteq> None \<and> sc_format_of args = Webp
       \<and> eargs = encoder_args s (sc_quality_of args)
            (apply_end_delay (Some 4000)
               (collapse_frames (sha1 s) (sc_interval_of args * 1000) (res_frames result)))"
proof -
  from assms obtain dir where dir: "truthy_dir (sc_directory args) = Some dir"
    by (cases "truthy_dir (sc_directory args)") (auto simp: save_screencast_def Let_def)
  let ?asm = "createAnimatedWebP s (res_frames result) (sc_interval_of args * 1000) (Some 4000)
                (sc_quality_of args)"
  from assms dir have "sc_format_of args \<noteq> Png \<and> Exec bin eargs cwd ok \<in> set (fst ?asm)"
    using ensure_dir_execs[of bin eargs cwd ok s dir]
      save_buffers_execs[of bin eargs cwd ok s dir] save_webp_execs[of bin eargs cwd ok s dir]
    by (cases ?asm)
       (auto simp: save_screencast_def Let_def dest!: in_fst_bind_io split: if_splits sum.splits)
  then have "sc_format_of args = Webp" and "Exec bin eargs cwd ok \<in> set (fst ?asm)"
    by (cases "sc_format_of args", auto)
  with createAnimatedWebP_execs[of bin eargs cwd ok s] dir show ?thesis by auto
qed


lemma take_screencast_execs:
  assumes "Exec bin eargs cwd ok \<in> set (fst (take_screencast s args))"
  shows "\<exists>result. captureScreencast s (screencast_options_of args) = Inr result
           \<and> Exec bin eargs cwd ok \<in> set (fst (save_screencast s args result))"
  using assms
  by (auto simp: take_screencast_def with_module_def Let_def io_capture_def fst_bind_io
        split: if_splits sum.splits)

text \<open>
  Claim C2. The handler of \<^verbatim>\<open>take_screencast\<close> is the only caller of the assembler, and it
  supplies the end delay 4000 and a base delay of 100, 200 or 500 milliseconds. Whenever
  the encoder is started, its arguments are those of the runs of the captured frames
  under that base delay and that end delay; and for a non-empty frame sequence the runs
  cut the sequence (their concatenation is the input), the duration of the final run is
  the end delay 4000 whatever the number of frames in that run, and every earlier run
  has the base delay times the number of its frames.
\<close>

theorem end_delay_override:
  assumes "Exec bin eargs cwd ok \<in> set (fst (take_screencast s args))"
  shows "\<exists>result delay runs.
           captureScreencast s (screencast_options_of args) = Inr result
         \<and> delay = sc_interval_of args * 1000 \<and> delay \<in> {100, 200, 500}
         \<and> runs = apply_end_delay (Some 4000) (collapse_frames (sha1 s) delay (res_frames result))
         \<and> eargs = encoder_args s (sc_quality_of args) runs
         \<and> (res_frames result \<noteq> [] \<longrightarrow>
               concat (frame_runs (sha1 s) (res_frames result)) = res_frames result
             \<and> length runs = length (frame_runs (sha1 s) (res_frames result))
             \<and> duration (last runs) = 4000
             \<and> map duration (butlast runs)
                 = map (\<lambda>g. delay * of_nat (length g)) (butlast (frame_runs (sha1 s) (res_frames result))))"
proof -
  from take_screencast_execs[OF assms] obtain result where
    cap: "captureScreencast s (screencast_options_of args) = Inr result"
    and ex: "Exec bin eargs cwd ok \<in> set (fst (save_screencast s args result))"
    by blast
  from save_screencast_execs[OF ex] have
    dir: "truthy_dir (sc_directory args) \<noteq> None" and fmt: "sc_format_of args = Webp"
    and ea: "eargs = encoder_args s (sc_quality_of args)
            (apply_end_delay (Some 4000)
               (collapse_frames (sha1 s) (sc_interval_of args * 1000) (res_frames result)))"
    by blast+
  have runs: "res_frames result \<noteq> [] \<longrightarrow>
       concat (frame_runs (sha1 s) (res_frames result)) = res_frames result
     \<and> length (apply_end_delay (Some 4000)
           (collapse_frames (sha1 s) (sc_interval_of args * 1000) (res_frames result)))
         = length (frame_runs (sha1 s) (res_frames result))
     \<and> duration (last (apply_end_delay (Some 4000)
           (collapse_frames (sha1 s) (sc_interval_of args * 1000) (res_frames result)))) = 4000
     \<and> map duration (butlast (apply_end_delay (Some 4000)
           (collapse_frames (sha1 s) (sc_interval_of args * 1000) (res_frames result))))
         = map (\<lambda>g. sc_interval_of args * 1000 * of_nat (length g))
             (butlast (frame_runs (sha1 s) (res_frames result)))"
  proof
    assume ne: "res_frames result \<noteq> []"
    have nz: "(4000 :: rat) \<noteq> 0" by simp
    from end_delay_runs[OF ne nz, of "sha1 s" "sc_interval_of args * 1000"]
    show "concat (frame_runs (sha1 s) (res_frames result)) = res_frames result
     \<and> length (apply_end_delay (Some 4000)
           (collapse_frames (sha1 s) (sc_interval_of args * 1000) (res_frames result)))
         = length (frame_runs (sha1 s) (res_frames result))
     \<and> duration (last (apply_end_delay (Some 4000)
           (collapse_frames (sha1 s) (sc_interval_of args * 1000) (res_frames result)))) = 4000
     \<and> map duration (butlast (apply_end_delay (Some 4000)
           (collapse_frames (sha1 s) (sc_interval_of args * 1000) (res_frames result))))
         = map (\<lambda>g. sc_interval_of args * 1000 * of_nat (length g))
             (butlast (frame_runs (sha1 s) (res_frames result)))"
      by blast
  qed
  from cap webp_delay[OF dir fmt] ea runs show ?thesis by blast
qed

text \<open>A ten-second screencast of three frames, the first two alike, into \<^verbatim>\<open>out\<close>: the
  encoder is started with 400 milliseconds for the first run (twice the base delay 200)
  and 4000 for the final one.\<close>

theorem end_delay_override_witness:
  "Exec ''/app/dist/bin/img2webp-linux''
      [''-min_size'', ''-mixed'', ''-loop'', ''0'', ''-q'', ''75'', ''-m'', ''6'',
       ''-d'', ''400'', ''f0.png'', ''-d'', ''4000'', ''f1.png'', ''-o'', ''out.webp'']
      ''/tmp/webp-0000'' True
     \<in> set (fst (take_screencast demo_sys (demo_screencast_args\<lparr>sc_directory := Some ''out''\<rparr>)))
   \<and> map duration (apply_end_delay (Some 4000)
         (collapse_frames (sha1 demo_sys) 200 [[1], [1], [2, 2]])) = [400, 4000]
   \<and> frame_runs (sha1 demo_sys) [[1], [1], [2, 2]] = [[[1], [1]], [[2, 2]]]"
proof -
  let ?a = "demo_screencast_args\<lparr>sc_directory := Some ''out''\<rparr>"
  have ex: "Exec ''/app/dist/bin/img2webp-linux''
      [''-min_size'', ''-mixed'', ''-loop'', ''0'', ''-q'', ''75'', ''-m'', ''6'',
       ''-d'', ''400'', ''f0.png'', ''-d'', ''4000'', ''f1.png'', ''-o'', ''out.webp'']
      ''/tmp/webp-0000'' True
     \<in> set (fst (take_screencast demo_sys ?a))"
    by (simp add: demo_sys_def demo_screencast_args_def take_screencast_def with_module_def
        screencast_options_of_def io_capture_def bind_io_def save_screencast_def truthy_dir_def
        sc_format_of_def sc_quality_of_def sc_interval_of_def sc_duration_of_def
        screencast_interval_def createAnimatedWebP_paths temp_dir_def binary_name_def
        collapse_frames_def push_frame_def apply_end_delay_def encoder_args_def quality_value_def
        ensure_dir_def save_webp_def generateFilename_def sanitize_hostname_def is_alnum_def
        stamp_def io_write_def show_nat.simps Let_def)
  have iv: "sc_interval_of ?a * 1000 = 200"
    by (simp add: demo_screencast_args_def sc_interval_of_def sc_format_of_def sc_duration_of_def
          screencast_interval_def truthy_dir_def)
  have cap: "captureScreencast demo_sys (screencast_options_of ?a)
       = Inr \<lparr>res_frames = [[1], [1], [2, 2]], res_duration = 10, res_interval = 0.2\<rparr>"
    by (simp add: demo_sys_def screencast_options_of_def sc_duration_of_def
          demo_screencast_args_def sc_interval_of_def sc_format_of_def
          screencast_interval_def truthy_dir_def)
  from end_delay_override [OF ex] obtain runs where
    r: "runs = apply_end_delay (Some 4000) (collapse_frames (sha1 demo_sys) 200 [[1], [1], [2, 2]])"
    and last: "duration (last runs) = 4000"
    and len: "length runs = length (frame_runs (sha1 demo_sys) [[1], [1], [2, 2 :: 8 word]])"
    and durs: "map duration (butlast runs)
        = map (\<lambda>g. 200 * of_nat (length g)) (butlast (frame_runs (sha1 demo_sys) [[1], [1], [2, 2]]))"
    unfolding iv cap by auto
  have fr: "frame_runs (sha1 demo_sys) [[1], [1], [2, 2]] = [[[1], [1]], [[2, 2]]]"
    by (simp add: demo_sys_def)
  from len fr obtain x y where xy: "runs = [x, y]"
    by (cases runs; cases "tl runs"; cases "tl (tl runs)") auto
  from last durs xy fr have "map duration runs = [400, 4000]" by simp
  with r ex fr show ?thesis by simp
qed

end
